theory Spec2Isabelle
  imports Main "HOL-Library.Word"
begin

section \<open>Incremental-bitmap plugin: the bitmap engine, the event interceptor and the backup coordinator\<close>

text \<open>
  A shallow embedding of the C sources of the incremental bitmap plugin:
  the RoaringBitmap adapter and the bitmap engine (\<^verbatim>\<open>bitmap_engine.c\<close>), the worker and the
  life cycle of the event interceptor (\<^verbatim>\<open>event_interceptor.c\<close>) and the cursor, estimation and
  retry code of the backup coordinator (\<^verbatim>\<open>backup_coordinator.c\<close>).

  Conventions. Pointer arguments are values, so the \<^verbatim>\<open>NULL\<close> guards at the head of the public
  functions (which return without touching any state) have no counterpart. Every function
  runs as it does while it holds the engine lock; the locks themselves are not modelled.
  \<^verbatim>\<open>uint64_t\<close> and \<^verbatim>\<open>int64_t\<close> are 64-bit words, \<^verbatim>\<open>int64_t\<close> being read with the signed
  order \<open>\<le>s\<close>; \<^verbatim>\<open>uint32_t\<close> is a 32-bit word. A function that stores into caller memory
  returns the stored values next to its C return value.
\<close>

type_synonym u64 = "64 word"
type_synonym i64 = "64 word"
type_synonym u32 = "32 word"

subsection \<open>RoaringBitmap adapter\<close>

text \<open>
  The adapter wraps a \<^verbatim>\<open>roaring64_bitmap_t\<close> of the CRoaring library, which is a set of
  64-bit unsigned integers; the library calls are read as the set operations they are
  documented to be. Every set over a word type is finite.
\<close>

type_synonym bitmap = "u64 set"

definition tdengine_roaring_create :: bitmap where
  "tdengine_roaring_create = {}"

definition tdengine_roaring_add :: "bitmap \<Rightarrow> u64 \<Rightarrow> bitmap" where
  "tdengine_roaring_add bm v = insert v bm"

definition tdengine_roaring_remove :: "bitmap \<Rightarrow> u64 \<Rightarrow> bitmap" where
  "tdengine_roaring_remove bm v = bm - {v}"

definition tdengine_roaring_contains :: "bitmap \<Rightarrow> u64 \<Rightarrow> bool" where
  "tdengine_roaring_contains bm v = (v \<in> bm)"

text \<open>\<^verbatim>\<open>(uint32_t)roaring64_bitmap_get_cardinality(...)\<close>: the cardinality cut to 32 bits.\<close>

definition tdengine_roaring_cardinality :: "bitmap \<Rightarrow> u32" where
  "tdengine_roaring_cardinality bm = of_nat (card bm)"

definition tdengine_roaring_union_with :: "bitmap \<Rightarrow> bitmap \<Rightarrow> bitmap" where
  "tdengine_roaring_union_with bm other = bm \<union> other"

definition tdengine_roaring_intersect_with :: "bitmap \<Rightarrow> bitmap \<Rightarrow> bitmap" where
  "tdengine_roaring_intersect_with bm other = bm \<inter> other"

text \<open>
  \<^verbatim>\<open>roaring64_bitmap_to_uint64_array(r, out)\<close> stores every element of the bitmap, in
  ascending order, from \<^verbatim>\<open>out[0]\<close> on; it is not given \<^verbatim>\<open>max_count\<close>.
\<close>

definition roaring64_bitmap_to_uint64_array :: "bitmap \<Rightarrow> u64 list" where
  "roaring64_bitmap_to_uint64_array bm = sorted_list_of_set bm"

text \<open>
  The result is the list of values stored into \<^verbatim>\<open>array\<close> (from index 0) and the returned
  count. \<^verbatim>\<open>count = (uint32_t)(cardinality < max_count ? cardinality : max_count)\<close>. The
  callers read the cells below \<open>count\<close>. A stored list longer than \<^verbatim>\<open>max_count\<close> is a store
  past the end of the array the caller passed.
\<close>

definition tdengine_roaring_to_array :: "bitmap \<Rightarrow> u32 \<Rightarrow> u64 list \<times> u32" where
  "tdengine_roaring_to_array bm max_count =
     (let cardinality = card bm;
          count = (if cardinality < unat max_count then of_nat cardinality else max_count)
      in if count > 0 then (roaring64_bitmap_to_uint64_array bm, count) else ([], count))"

subsection \<open>Block states and the transition matrix\<close>

text \<open>
  The constructors are in the order of the enumeration: \<^verbatim>\<open>state_names\<close> in the source is
  \<^verbatim>\<open>{"CLEAN", "DIRTY", "NEW", "DELETED"}\<close>, indexed by the state.
\<close>

datatype EBlockState =
  BLOCK_STATE_CLEAN | BLOCK_STATE_DIRTY | BLOCK_STATE_NEW | BLOCK_STATE_DELETED

fun state_value :: "EBlockState \<Rightarrow> nat" where
  "state_value BLOCK_STATE_CLEAN = 0"
| "state_value BLOCK_STATE_DIRTY = 1"
| "state_value BLOCK_STATE_NEW = 2"
| "state_value BLOCK_STATE_DELETED = 3"

text \<open>
  Return codes of the engine. \<^verbatim>\<open>0\<close> is success and \<^verbatim>\<open>-1\<close> is the literal the source returns
  when a metadata node cannot be allocated. Modelled from the spec: the values of the
  \<^verbatim>\<open>ERR_*\<close> macros are in \<^verbatim>\<open>bitmap_engine.h\<close>, which is not among the sources; the error
  taxonomy lists InvalidParam, InvalidStateTransition and BlockNotFound as separate
  failures, so they are separate constructors here.
\<close>

datatype engine_rc =
  RC_SUCCESS | RC_MINUS_ONE | ERR_INVALID_PARAM | ERR_INVALID_STATE_TRANS | ERR_BLOCK_NOT_FOUND

definition STATE_TRANSITION_MATRIX :: "nat list list" where
  "STATE_TRANSITION_MATRIX =
     [[0, 1, 1, 1],
      [1, 0, 0, 1],
      [0, 1, 0, 1],
      [0, 0, 0, 0]]"

definition bitmap_engine_validate_state_transition ::
  "EBlockState \<Rightarrow> EBlockState \<Rightarrow> engine_rc" where
  "bitmap_engine_validate_state_transition current_state target_state =
     (if state_value current_state \<ge> 4 \<or> state_value target_state \<ge> 4
      then ERR_INVALID_STATE_TRANS
      else if STATE_TRANSITION_MATRIX ! state_value current_state ! state_value target_state \<noteq> 0
      then RC_SUCCESS
      else ERR_INVALID_STATE_TRANS)"

subsection \<open>Block metadata: a chained hash table\<close>

record SBlockMetadata =
  block_id :: u64
  wal_offset :: u64
  timestamp :: i64
  state :: EBlockState

record SBlockMetadataNode =
  node_block_id :: u64
  node_metadata :: SBlockMetadata

text \<open>
  Modelled from the spec: the ordered index (\<^verbatim>\<open>skiplist.c\<close> is not among the sources) is an
  ordered mapping from \<^verbatim>\<open>int64_t\<close> keys to bitmaps with find, insert and an ordered range
  iteration that calls back on every key in \<open>[k_lo, k_hi]\<close>. It is kept as an association
  list in ascending signed key order.
\<close>

type_synonym skiplist = "(i64 \<times> bitmap) list"

definition skiplist_create :: skiplist where
  "skiplist_create = []"

fun skiplist_find :: "skiplist \<Rightarrow> i64 \<Rightarrow> bitmap option" where
  "skiplist_find [] key = None"
| "skiplist_find ((k, bm) # rest) key = (if k = key then Some bm else skiplist_find rest key)"

fun skiplist_insert :: "skiplist \<Rightarrow> i64 \<Rightarrow> bitmap \<Rightarrow> skiplist" where
  "skiplist_insert [] key bm = [(key, bm)]"
| "skiplist_insert ((k, b) # rest) key bm =
     (if k = key then (key, bm) # rest
      else if key <s k then (key, bm) # (k, b) # rest
      else (k, b) # skiplist_insert rest key bm)"

text \<open>
  The callback gets the key, the bitmap of the key and the accumulated effect of the
  earlier calls (the nested functions of the source write to a local of their caller).
\<close>

definition skiplist_range_query ::
  "skiplist \<Rightarrow> i64 \<Rightarrow> i64 \<Rightarrow> bool \<Rightarrow> (i64 \<Rightarrow> bitmap \<Rightarrow> 'a \<Rightarrow> 'a) \<Rightarrow> 'a \<Rightarrow> 'a" where
  "skiplist_range_query sl k_lo k_hi reverse cb acc =
     (let hits = filter (\<lambda>(k, bm). k_lo \<le>s k \<and> k \<le>s k_hi) sl
      in fold (\<lambda>(k, bm). cb k bm) (if reverse then rev hits else hits) acc)"

text \<open>
  The engine. \<^verbatim>\<open>metadata_map\<close> is the array of bucket heads, each bucket the chain of its
  nodes from the head on. The declaration of the structure is in the missing header; the
  statistics counters have the width of the \<^verbatim>\<open>uint64_t\<close> cells \<^verbatim>\<open>bitmap_engine_get_stats\<close>
  copies them to.
\<close>

record SBitmapEngine =
  dirty_blocks :: bitmap
  new_blocks :: bitmap
  deleted_blocks :: bitmap
  metadata_map :: "u32 \<Rightarrow> SBlockMetadataNode list"
  metadata_map_size :: u32
  metadata_count :: u32
  time_index :: skiplist
  wal_index :: skiplist
  total_blocks :: u64
  dirty_count :: u64
  new_count :: u64
  deleted_count :: u64

definition hash_block_id :: "u64 \<Rightarrow> u32 \<Rightarrow> u32" where
  "hash_block_id bid map_size = ucast (bid mod ucast map_size)"

fun find_node :: "SBlockMetadataNode list \<Rightarrow> u64 \<Rightarrow> SBlockMetadataNode option" where
  "find_node [] bid = None"
| "find_node (node # rest) bid =
     (if node_block_id node = bid then Some node else find_node rest bid)"

definition find_block_metadata :: "SBitmapEngine \<Rightarrow> u64 \<Rightarrow> SBlockMetadataNode option" where
  "find_block_metadata engine bid =
     find_node (metadata_map engine (hash_block_id bid (metadata_map_size engine))) bid"

text \<open>\<^verbatim>\<open>existing->metadata = *metadata\<close> on the first node of the chain with the id.\<close>

fun update_node :: "SBlockMetadataNode list \<Rightarrow> u64 \<Rightarrow> SBlockMetadata \<Rightarrow> SBlockMetadataNode list" where
  "update_node [] bid metadata = []"
| "update_node (node # rest) bid metadata =
     (if node_block_id node = bid then node\<lparr>node_metadata := metadata\<rparr> # rest
      else node # update_node rest bid metadata)"

text \<open>
  \<open>malloc_ok\<close> says whether \<^verbatim>\<open>malloc\<close> of the new node succeeds; it is consulted only when
  the id has no node yet.
\<close>

definition insert_block_metadata ::
  "bool \<Rightarrow> SBitmapEngine \<Rightarrow> SBlockMetadata \<Rightarrow> int \<times> SBitmapEngine" where
  "insert_block_metadata malloc_ok engine metadata =
     (let hash = hash_block_id (block_id metadata) (metadata_map_size engine)
      in case find_block_metadata engine (block_id metadata) of
           Some existing \<Rightarrow>
             (0, engine\<lparr>metadata_map := (metadata_map engine)
                    (hash := update_node (metadata_map engine hash) (block_id metadata) metadata)\<rparr>)
         | None \<Rightarrow>
             if \<not> malloc_ok then (-1, engine)
             else (0, engine\<lparr>metadata_map := (metadata_map engine)
                    (hash := \<lparr>node_block_id = block_id metadata, node_metadata = metadata\<rparr>
                             # metadata_map engine hash),
                    metadata_count := metadata_count engine + 1\<rparr>))"

fun remove_node :: "SBlockMetadataNode list \<Rightarrow> u64 \<Rightarrow> SBlockMetadataNode list option" where
  "remove_node [] bid = None"
| "remove_node (node # rest) bid =
     (if node_block_id node = bid then Some rest
      else map_option (\<lambda>r. node # r) (remove_node rest bid))"

definition remove_block_metadata :: "SBitmapEngine \<Rightarrow> u64 \<Rightarrow> int \<times> SBitmapEngine" where
  "remove_block_metadata engine bid =
     (let hash = hash_block_id bid (metadata_map_size engine)
      in case remove_node (metadata_map engine hash) bid of
           Some chain \<Rightarrow>
             (0, engine\<lparr>metadata_map := (metadata_map engine)(hash := chain),
                        metadata_count := metadata_count engine - 1\<rparr>)
         | None \<Rightarrow> (-1, engine))"

text \<open>
  \<^verbatim>\<open>add_time_index\<close> and \<^verbatim>\<open>add_wal_index\<close>: find the bitmap of the key, insert an empty one
  when there is none, and add the id to it. The bitmap is reached through the pointer the
  index holds, so the addition is a store into the index. A WAL offset is passed where the
  index takes an \<^verbatim>\<open>int64_t\<close> key: the same 64 bits.
\<close>

definition add_index :: "skiplist \<Rightarrow> i64 \<Rightarrow> u64 \<Rightarrow> skiplist" where
  "add_index sl key bid =
     (case skiplist_find sl key of
        Some bm \<Rightarrow> skiplist_insert sl key (tdengine_roaring_add bm bid)
      | None \<Rightarrow> skiplist_insert (skiplist_insert sl key tdengine_roaring_create) key
                  (tdengine_roaring_add tdengine_roaring_create bid))"

definition add_time_index :: "SBitmapEngine \<Rightarrow> i64 \<Rightarrow> u64 \<Rightarrow> SBitmapEngine" where
  "add_time_index engine ts bid = engine\<lparr>time_index := add_index (time_index engine) ts bid\<rparr>"

definition add_wal_index :: "SBitmapEngine \<Rightarrow> u64 \<Rightarrow> u64 \<Rightarrow> SBitmapEngine" where
  "add_wal_index engine wal bid = engine\<lparr>wal_index := add_index (wal_index engine) wal bid\<rparr>"

definition bitmap_engine_init :: SBitmapEngine where
  "bitmap_engine_init =
     \<lparr>dirty_blocks = tdengine_roaring_create,
      new_blocks = tdengine_roaring_create,
      deleted_blocks = tdengine_roaring_create,
      metadata_map = (\<lambda>_. []),
      metadata_map_size = 10000,
      metadata_count = 0,
      time_index = skiplist_create,
      wal_index = skiplist_create,
      total_blocks = 0,
      dirty_count = 0,
      new_count = 0,
      deleted_count = 0\<rparr>"

subsection \<open>Marking and clearing\<close>

definition current_state_of :: "SBitmapEngine \<Rightarrow> u64 \<Rightarrow> EBlockState" where
  "current_state_of engine bid =
     (case find_block_metadata engine bid of
        None \<Rightarrow> BLOCK_STATE_CLEAN
      | Some existing_node \<Rightarrow> state (node_metadata existing_node))"

definition bitmap_engine_mark_dirty ::
  "bool \<Rightarrow> SBitmapEngine \<Rightarrow> u64 \<Rightarrow> u64 \<Rightarrow> i64 \<Rightarrow> engine_rc \<times> SBitmapEngine" where
  "bitmap_engine_mark_dirty malloc_ok engine bid wal ts =
     (let current_state = current_state_of engine bid
      in if bitmap_engine_validate_state_transition current_state BLOCK_STATE_DIRTY \<noteq> RC_SUCCESS
         then (ERR_INVALID_STATE_TRANS, engine)
         else
           let metadata = \<lparr>block_id = bid, wal_offset = wal, timestamp = ts,
                           state = BLOCK_STATE_DIRTY\<rparr>;
               (rc, e1) = insert_block_metadata malloc_ok engine metadata
           in if rc \<noteq> 0 then (RC_MINUS_ONE, e1)
              else
                let e2 = e1\<lparr>dirty_blocks := tdengine_roaring_add (dirty_blocks e1) bid\<rparr>;
                    e3 = add_time_index e2 ts bid;
                    e4 = add_wal_index e3 wal bid
                in (RC_SUCCESS, e4\<lparr>dirty_count := dirty_count e4 + 1,
                                    total_blocks := total_blocks e4 + 1\<rparr>))"

definition bitmap_engine_mark_new ::
  "bool \<Rightarrow> SBitmapEngine \<Rightarrow> u64 \<Rightarrow> u64 \<Rightarrow> i64 \<Rightarrow> engine_rc \<times> SBitmapEngine" where
  "bitmap_engine_mark_new malloc_ok engine bid wal ts =
     (let current_state = current_state_of engine bid
      in if bitmap_engine_validate_state_transition current_state BLOCK_STATE_NEW \<noteq> RC_SUCCESS
         then (ERR_INVALID_STATE_TRANS, engine)
         else
           let metadata = \<lparr>block_id = bid, wal_offset = wal, timestamp = ts,
                           state = BLOCK_STATE_NEW\<rparr>;
               (rc, e1) = insert_block_metadata malloc_ok engine metadata
           in if rc \<noteq> 0 then (RC_MINUS_ONE, e1)
              else
                let e2 = e1\<lparr>new_blocks := tdengine_roaring_add (new_blocks e1) bid\<rparr>;
                    e3 = add_time_index e2 ts bid;
                    e4 = add_wal_index e3 wal bid
                in (RC_SUCCESS, e4\<lparr>new_count := new_count e4 + 1,
                                    total_blocks := total_blocks e4 + 1\<rparr>))"

definition bitmap_engine_mark_deleted ::
  "bool \<Rightarrow> SBitmapEngine \<Rightarrow> u64 \<Rightarrow> u64 \<Rightarrow> i64 \<Rightarrow> engine_rc \<times> SBitmapEngine" where
  "bitmap_engine_mark_deleted malloc_ok engine bid wal ts =
     (let current_state = current_state_of engine bid
      in if bitmap_engine_validate_state_transition current_state BLOCK_STATE_DELETED \<noteq> RC_SUCCESS
         then (ERR_INVALID_STATE_TRANS, engine)
         else
           let metadata = \<lparr>block_id = bid, wal_offset = wal, timestamp = ts,
                           state = BLOCK_STATE_DELETED\<rparr>;
               (rc, e1) = insert_block_metadata malloc_ok engine metadata
           in if rc \<noteq> 0 then (RC_MINUS_ONE, e1)
              else
                let e2 = e1\<lparr>deleted_blocks := tdengine_roaring_add (deleted_blocks e1) bid\<rparr>;
                    e3 = add_time_index e2 ts bid;
                    e4 = add_wal_index e3 wal bid
                in (RC_SUCCESS, e4\<lparr>deleted_count := deleted_count e4 + 1,
                                    total_blocks := total_blocks e4 + 1\<rparr>))"

definition bitmap_engine_clear_block :: "SBitmapEngine \<Rightarrow> u64 \<Rightarrow> engine_rc \<times> SBitmapEngine" where
  "bitmap_engine_clear_block engine bid =
     (case find_block_metadata engine bid of
        None \<Rightarrow> (ERR_BLOCK_NOT_FOUND, engine)
      | Some existing_node \<Rightarrow>
          let current_state = state (node_metadata existing_node)
          in if bitmap_engine_validate_state_transition current_state BLOCK_STATE_CLEAN \<noteq> RC_SUCCESS
             then (ERR_INVALID_STATE_TRANS, engine)
             else
               let e1 = engine\<lparr>dirty_blocks := tdengine_roaring_remove (dirty_blocks engine) bid,
                               new_blocks := tdengine_roaring_remove (new_blocks engine) bid,
                               deleted_blocks := tdengine_roaring_remove (deleted_blocks engine) bid\<rparr>;
                   e2 = snd (remove_block_metadata e1 bid)
               in (RC_SUCCESS,
                   e2\<lparr>dirty_count := ucast (tdengine_roaring_cardinality (dirty_blocks e2)),
                      new_count := ucast (tdengine_roaring_cardinality (new_blocks e2)),
                      deleted_count := ucast (tdengine_roaring_cardinality (deleted_blocks e2)),
                      total_blocks := ucast (metadata_count e2)\<rparr>))"

definition bitmap_engine_get_block_metadata :: "SBitmapEngine \<Rightarrow> u64 \<Rightarrow> SBlockMetadata option" where
  "bitmap_engine_get_block_metadata engine bid =
     (case find_block_metadata engine bid of
        None \<Rightarrow> None
      | Some node \<Rightarrow> Some (node_metadata node))"

text \<open>The four cells written by \<^verbatim>\<open>bitmap_engine_get_stats\<close>, in the order of its parameters.\<close>

definition bitmap_engine_get_stats :: "SBitmapEngine \<Rightarrow> u64 \<times> u64 \<times> u64 \<times> u64" where
  "bitmap_engine_get_stats engine =
     (total_blocks engine, dirty_count engine, new_count engine, deleted_count engine)"

subsection \<open>Range queries\<close>

text \<open>
  \<^verbatim>\<open>range_cb\<close>, the nested callback of both queries: a fresh bitmap receives the dirty
  bitmap, is intersected with the bitmap of the key and is united into the result.
\<close>

definition range_cb :: "SBitmapEngine \<Rightarrow> i64 \<Rightarrow> bitmap \<Rightarrow> bitmap \<Rightarrow> bitmap" where
  "range_cb engine key bm result =
     (let intersection = tdengine_roaring_union_with tdengine_roaring_create (dirty_blocks engine);
          intersection = tdengine_roaring_intersect_with intersection bm
      in tdengine_roaring_union_with result intersection)"

definition bitmap_engine_get_dirty_blocks_by_time ::
  "SBitmapEngine \<Rightarrow> i64 \<Rightarrow> i64 \<Rightarrow> u32 \<Rightarrow> u64 list \<times> u32" where
  "bitmap_engine_get_dirty_blocks_by_time engine start_time end_time max_count =
     (if max_count = 0 then ([], 0)
      else
        let result = skiplist_range_query (time_index engine) start_time end_time False
                       (range_cb engine) tdengine_roaring_create
        in tdengine_roaring_to_array result max_count)"

definition bitmap_engine_get_dirty_blocks_by_wal ::
  "SBitmapEngine \<Rightarrow> u64 \<Rightarrow> u64 \<Rightarrow> u32 \<Rightarrow> u64 list \<times> u32" where
  "bitmap_engine_get_dirty_blocks_by_wal engine start_offset end_offset max_count =
     (if max_count = 0 then ([], 0)
      else
        let result = skiplist_range_query (wal_index engine) start_offset end_offset False
                       (range_cb engine) tdengine_roaring_create
        in tdengine_roaring_to_array result max_count)"

text \<open>
  The ids an index holds under the keys of a range: the union of the bitmaps of the keys
  in \<open>[k_lo, k_hi]\<close>.
\<close>

definition indexed_in_range :: "skiplist \<Rightarrow> i64 \<Rightarrow> i64 \<Rightarrow> bitmap" where
  "indexed_in_range sl k_lo k_hi =
     \<Union> (set (map snd (filter (\<lambda>(k, bm). k_lo \<le>s k \<and> k \<le>s k_hi) sl)))"

text \<open>The dirty blocks of a WAL range: the ids the WAL query collects for it.\<close>

abbreviation dirty_in_wal_range :: "SBitmapEngine \<Rightarrow> u64 \<Rightarrow> u64 \<Rightarrow> bitmap" where
  "dirty_in_wal_range engine lo hi \<equiv>
     dirty_blocks engine \<inter> indexed_in_range (wal_index engine) lo hi"

subsection \<open>Backup coordinator: retry\<close>

definition BACKUP_SUCCESS :: int where "BACKUP_SUCCESS = 0"
definition BACKUP_ERROR_INVALID_PARAM :: int where "BACKUP_ERROR_INVALID_PARAM = -1"
definition BACKUP_ERROR_FILE_IO :: int where "BACKUP_ERROR_FILE_IO = -5"
definition BACKUP_ERROR_NETWORK :: int where "BACKUP_ERROR_NETWORK = -6"
definition BACKUP_ERROR_TIMEOUT :: int where "BACKUP_ERROR_TIMEOUT = -7"
definition BACKUP_ERROR_DATA_CORRUPTION :: int where "BACKUP_ERROR_DATA_CORRUPTION = -8"
definition BACKUP_ERROR_CONNECTION_LOST :: int where "BACKUP_ERROR_CONNECTION_LOST = -11"
definition BACKUP_ERROR_RETRY_EXHAUSTED :: int where "BACKUP_ERROR_RETRY_EXHAUSTED = -12"

datatype ERetryState =
  RETRY_STATE_IDLE | RETRY_STATE_RETRYING | RETRY_STATE_SUCCESS | RETRY_STATE_FAILED

record SRetryContext =
  current_retry :: u32
  max_retry :: u32
  retry_interval :: u32
  last_retry_time :: u64
  retry_state :: ERetryState
  last_error :: int

definition is_retryable_error :: "int \<Rightarrow> bool" where
  "is_retryable_error error_code =
     (if error_code = BACKUP_ERROR_NETWORK \<or> error_code = BACKUP_ERROR_TIMEOUT \<or>
         error_code = BACKUP_ERROR_CONNECTION_LOST \<or> error_code = BACKUP_ERROR_FILE_IO
      then True else False)"

definition backup_retry_context_init :: "u32 \<Rightarrow> u32 \<Rightarrow> SRetryContext" where
  "backup_retry_context_init max_r interval =
     \<lparr>current_retry = 0, max_retry = max_r, retry_interval = interval,
      last_retry_time = 0, retry_state = RETRY_STATE_IDLE, last_error = BACKUP_SUCCESS\<rparr>"

text \<open>The sleep has no effect on the state; \<open>now\<close> is the clock read before it.\<close>

definition backup_wait_for_retry :: "u64 \<Rightarrow> SRetryContext \<Rightarrow> SRetryContext" where
  "backup_wait_for_retry now retry_context = retry_context\<lparr>last_retry_time := now\<rparr>"

text \<open>
  The \<^verbatim>\<open>while\<close> loop of \<^verbatim>\<open>backup_execute_with_retry\<close>. The operation is a function pointer
  with effects of its own: \<open>operation n\<close> is what its call number \<open>n\<close> (from 0) returns, and
  \<open>clock n\<close> the time read after that call. The result is the returned code, the context
  and the number of calls made.
\<close>

function retry_loop ::
  "(nat \<Rightarrow> int) \<Rightarrow> (nat \<Rightarrow> u64) \<Rightarrow> nat \<Rightarrow> SRetryContext \<Rightarrow> int \<times> SRetryContext \<times> nat" where
  "retry_loop operation clock n ctx =
     (if current_retry ctx \<le> max_retry ctx then
        let result = operation n in
        if result = BACKUP_SUCCESS
        then (BACKUP_SUCCESS, ctx\<lparr>retry_state := RETRY_STATE_SUCCESS\<rparr>, Suc n)
        else
          let c1 = ctx\<lparr>last_error := result\<rparr> in
          if \<not> is_retryable_error result \<or> current_retry c1 \<ge> max_retry c1
          then (result, c1\<lparr>retry_state := RETRY_STATE_FAILED\<rparr>, Suc n)
          else retry_loop operation clock (Suc n)
                 (backup_wait_for_retry (clock n) (c1\<lparr>current_retry := current_retry c1 + 1\<rparr>))
      else (BACKUP_ERROR_RETRY_EXHAUSTED, ctx\<lparr>retry_state := RETRY_STATE_FAILED\<rparr>, n))"
  by pat_completeness auto
termination
proof (relation "measure (\<lambda>(operation, clock, n, ctx). unat (max_retry ctx) - unat (current_retry ctx))")
  show "wf (measure (\<lambda>(operation, clock, n, ctx). unat (max_retry ctx) - unat (current_retry ctx)))"
    by simp
next
  fix operation :: "nat \<Rightarrow> int" and clock :: "nat \<Rightarrow> u64" and n :: nat
    and ctx :: SRetryContext and result :: int and c1 :: SRetryContext
  assume c1: "c1 = ctx\<lparr>last_error := result\<rparr>"
    and more: "\<not> (\<not> is_retryable_error result \<or> max_retry c1 \<le> current_retry c1)"
  from more c1 have lt: "current_retry ctx < max_retry ctx"
    by (simp add: not_le)
  then have below: "unat (current_retry ctx) < unat (max_retry ctx)"
    by (simp add: word_less_nat_alt)
  moreover have "unat (max_retry ctx) < 2 ^ 32"
    using unsigned_less [of "max_retry ctx"] by simp
  ultimately have "unat (current_retry ctx) + 1 < 2 ^ 32"
    by simp
  then have "unat (current_retry ctx + 1) = unat (current_retry ctx) + 1"
    by (simp add: unat_word_ariths)
  with below have "unat (max_retry ctx) - unat (current_retry ctx + 1)
      < unat (max_retry ctx) - unat (current_retry ctx)"
    by simp
  then show "((operation, clock, Suc n,
            backup_wait_for_retry (clock n) (c1\<lparr>current_retry := current_retry c1 + 1\<rparr>)),
           operation, clock, n, ctx)
          \<in> measure (\<lambda>(operation, clock, n, ctx). unat (max_retry ctx) - unat (current_retry ctx))"
    using c1 by (simp add: backup_wait_for_retry_def)
qed

declare retry_loop.simps [simp del]

definition backup_execute_with_retry ::
  "(nat \<Rightarrow> int) \<Rightarrow> (nat \<Rightarrow> u64) \<Rightarrow> SRetryContext \<Rightarrow> int \<times> SRetryContext \<times> nat" where
  "backup_execute_with_retry operation clock retry_context =
     retry_loop operation clock 0
       (retry_context\<lparr>retry_state := RETRY_STATE_RETRYING, current_retry := 0\<rparr>)"

subsection \<open>Backup coordinator: cursors and estimation\<close>

datatype ECursorType = CURSOR_TYPE_TIME | CURSOR_TYPE_WAL | CURSOR_TYPE_HYBRID

record SIncrementalCursor =
  cursor_type :: ECursorType
  start_time :: i64
  end_time :: i64
  start_wal :: u64
  end_wal :: u64
  current_block :: u64
  block_count :: u32
  has_more :: bool

text \<open>\<open>blk_data = None\<close> is the \<^verbatim>\<open>NULL\<close> data pointer.\<close>

record SIncrementalBlock =
  blk_block_id :: u64
  blk_wal_offset :: u64
  blk_timestamp :: i64
  blk_data :: "8 word list option"
  blk_data_size :: u32
  blk_state :: EBlockState

text \<open>The configuration, without its three string fields (key and paths).\<close>

record SBackupCoordinatorConfig =
  max_blocks_per_batch :: u32
  batch_timeout_ms :: u32
  enable_compression :: bool
  enable_encryption :: bool
  error_retry_max :: u32
  error_retry_interval :: u32
  enable_error_logging :: bool
  error_buffer_size :: u32
  backup_max_size :: u64
  compression_level :: "8 word"

text \<open>
  The coordinator holds a pointer to the engine; \<open>bitmap_engine\<close> is the engine as it is
  when the coordinator is called.
\<close>

record SBackupCoordinator =
  config :: SBackupCoordinatorConfig
  bitmap_engine :: SBitmapEngine
  retry_context :: SRetryContext
  error_count :: u64
  retry_count :: u64
  total_backup_blocks :: u64
  total_backup_size :: u64
  backup_duration_ms :: u64

definition backup_coordinator_init ::
  "SBackupCoordinatorConfig \<Rightarrow> SBitmapEngine \<Rightarrow> SBackupCoordinator" where
  "backup_coordinator_init cfg engine =
     \<lparr>config = cfg, bitmap_engine = engine,
      retry_context = backup_retry_context_init (error_retry_max cfg) (error_retry_interval cfg),
      error_count = 0, retry_count = 0,
      total_backup_blocks = 0, total_backup_size = 0, backup_duration_ms = 0\<rparr>"

text \<open>
  \<^verbatim>\<open>backup_coordinator_get_dirty_blocks\<close> hands the array of its caller to the engine; its
  result is that of the engine query.
\<close>

definition backup_coordinator_get_dirty_blocks ::
  "SBackupCoordinator \<Rightarrow> u64 \<Rightarrow> u64 \<Rightarrow> u32 \<Rightarrow> u64 list \<times> u32" where
  "backup_coordinator_get_dirty_blocks coordinator sw ew max_count =
     (if max_count = 0 then ([], 0)
      else bitmap_engine_get_dirty_blocks_by_wal (bitmap_engine coordinator) sw ew max_count)"

text \<open>
  The three functions below call the engine query with a buffer of their own:
  \<^verbatim>\<open>uint64_t temp_block_ids[1]\<close> on the stack, or \<^verbatim>\<open>malloc(sizeof(uint64_t) * max_count)\<close>.
  The query stores every id of the range from cell 0 on. When it stores more ids than
  the buffer has cells the call writes past the end of the buffer and C gives it no
  behaviour; the model ends such a call with \<open>Inl BLOCK_IDS_OVERRUN\<close>. A call that stays
  inside its buffer ends with \<open>Inr\<close> of what it returns.
\<close>

datatype coordinator_fault = BLOCK_IDS_OVERRUN

text \<open>\<open>Inr None\<close> is the \<^verbatim>\<open>NULL\<close> returned when the cursor cannot be allocated.\<close>

definition backup_coordinator_create_cursor ::
  "bool \<Rightarrow> SBackupCoordinator \<Rightarrow> ECursorType \<Rightarrow> i64 \<Rightarrow> i64 \<Rightarrow> u64 \<Rightarrow> u64 \<Rightarrow>
     coordinator_fault + SIncrementalCursor option" where
  "backup_coordinator_create_cursor malloc_ok coordinator ctype st et sw ew =
     (if \<not> malloc_ok then Inr None
      else
        let cursor = \<lparr>cursor_type = ctype, start_time = st, end_time = et,
                       start_wal = sw, end_wal = ew, current_block = 0,
                       block_count = 0, has_more = True\<rparr>;
            (temp_block_ids, count) =
               bitmap_engine_get_dirty_blocks_by_wal (bitmap_engine coordinator) sw ew 1
        in if length temp_block_ids > 1 then Inl BLOCK_IDS_OVERRUN
           else Inr (Some (if count > 0 then cursor\<lparr>block_count := 1000\<rparr> else cursor)))"

text \<open>
  The body of the loop of \<^verbatim>\<open>backup_coordinator_get_next_batch\<close> for one id: the cell of
  \<^verbatim>\<open>blocks\<close> it fills, \<open>None\<close> for a cell it leaves untouched because the id has no
  metadata.
\<close>

definition fill_block :: "SBitmapEngine \<Rightarrow> u64 \<Rightarrow> SIncrementalBlock option" where
  "fill_block engine bid =
     (case bitmap_engine_get_block_metadata engine bid of
        None \<Rightarrow> None
      | Some metadata \<Rightarrow>
          Some \<lparr>blk_block_id = bid, blk_wal_offset = wal_offset metadata,
                blk_timestamp = timestamp metadata, blk_data = None,
                blk_data_size = 0, blk_state = state metadata\<rparr>)"

text \<open>
  The result is the returned count, the cells \<^verbatim>\<open>blocks[0 .. count-1]\<close> and the cursor. The
  loop reads \<^verbatim>\<open>block_ids[i]\<close> for \<open>i < count\<close>, the first \<open>count\<close> values the query stored.
\<close>

definition backup_coordinator_get_next_batch ::
  "bool \<Rightarrow> SBackupCoordinator \<Rightarrow> SIncrementalCursor \<Rightarrow> u32 \<Rightarrow>
     coordinator_fault + u32 \<times> SIncrementalBlock option list \<times> SIncrementalCursor" where
  "backup_coordinator_get_next_batch malloc_ok coordinator cursor max_count =
     (if max_count = 0 then Inr (0, [], cursor)
      else if \<not> has_more cursor then Inr (0, [], cursor)
      else if \<not> malloc_ok then Inr (0, [], cursor)
      else
        let (stored, count) = bitmap_engine_get_dirty_blocks_by_wal (bitmap_engine coordinator)
                                (start_wal cursor) (end_wal cursor) max_count
        in if length stored > unat max_count then Inl BLOCK_IDS_OVERRUN
           else
             let block_ids = take (unat count) stored;
                 blocks = map (fill_block (bitmap_engine coordinator)) block_ids;
                 c1 = cursor\<lparr>current_block := current_block cursor + ucast count\<rparr>;
                 c2 = (if current_block c1 \<ge> ucast (block_count c1) \<or> count < max_count
                       then c1\<lparr>has_more := False\<rparr> else c1)
             in Inr (count, blocks, c2))"

text \<open>
  The result is the return value and the two output cells. \<^verbatim>\<open>count * 1000\<close> is a 32-bit
  product, widened on assignment; the size is a 64-bit product.
\<close>

definition backup_coordinator_estimate_size ::
  "SBackupCoordinator \<Rightarrow> u64 \<Rightarrow> u64 \<Rightarrow> coordinator_fault + int \<times> u64 \<times> u64" where
  "backup_coordinator_estimate_size coordinator sw ew =
     (let (temp_block_ids, count) =
             bitmap_engine_get_dirty_blocks_by_wal (bitmap_engine coordinator) sw ew 1
      in if length temp_block_ids > 1 then Inl BLOCK_IDS_OVERRUN
         else
           let estimated_blocks = ucast (count * 1000);
               estimated_size = estimated_blocks * 1024 * 1024
           in Inr (0, estimated_blocks, estimated_size))"

subsection \<open>Event interceptor\<close>

datatype EEventType =
  EVENT_BLOCK_CREATE | EVENT_BLOCK_UPDATE | EVENT_BLOCK_FLUSH | EVENT_BLOCK_DELETE

record SBlockEvent =
  event_type :: EEventType
  event_block_id :: u64
  event_wal_offset :: u64
  event_timestamp :: i64

text \<open>
  The user callback is foreign code. Of what it may do, the model keeps its effect on the
  bitmap engine, the one piece of the state here that it can reach.
\<close>

type_synonym FBlockEventCallback = "SBlockEvent \<Rightarrow> SBitmapEngine \<Rightarrow> SBitmapEngine"

record SEventInterceptorConfig =
  enable_interception :: bool
  event_buffer_size :: u32
  callback_threads :: u32
  callback :: "FBlockEventCallback option"

text \<open>
  \<open>event_buffer\<close> is the content of the ring buffer, oldest first. \<open>live_workers\<close> is not a
  field of the source: it counts the threads created by \<^verbatim>\<open>pthread_create\<close> and not yet
  joined.
\<close>

record SEventInterceptor =
  interceptor_config :: SEventInterceptorConfig
  event_buffer :: "SBlockEvent list"
  buffer_size :: u32
  thread_count :: u32
  stop_threads :: bool
  events_processed :: u64
  events_dropped :: u64
  live_workers :: nat

text \<open>
  Modelled from the spec: the ring buffer (\<^verbatim>\<open>ring_buffer.c\<close> is not among the sources) is a
  bounded FIFO of fixed capacity; enqueueing into a full buffer fails, and a blocking
  dequeue from a buffer that stays empty times out.
\<close>

definition ring_buffer_enqueue :: "SBlockEvent list \<Rightarrow> u32 \<Rightarrow> SBlockEvent \<Rightarrow> int \<times> SBlockEvent list" where
  "ring_buffer_enqueue buf capacity ev =
     (if length buf < unat capacity then (0, buf @ [ev]) else (-1, buf))"

definition ring_buffer_dequeue_blocking :: "SBlockEvent list \<Rightarrow> (SBlockEvent \<times> SBlockEvent list) option" where
  "ring_buffer_dequeue_blocking buf = (case buf of [] \<Rightarrow> None | ev # rest \<Rightarrow> Some (ev, rest))"

definition event_interceptor_init :: "SEventInterceptorConfig \<Rightarrow> SEventInterceptor" where
  "event_interceptor_init cfg =
     \<lparr>interceptor_config = cfg, event_buffer = [],
      buffer_size = event_buffer_size cfg, thread_count = callback_threads cfg,
      stop_threads = False, events_processed = 0, events_dropped = 0, live_workers = 0\<rparr>"

text \<open>
  The body shared by the four \<^verbatim>\<open>event_interceptor_on_block_*\<close> functions, which differ in
  the event type they store.
\<close>

definition on_block_event ::
  "EEventType \<Rightarrow> bool \<Rightarrow> SEventInterceptor \<Rightarrow> u64 \<Rightarrow> u64 \<Rightarrow> i64 \<Rightarrow> int \<times> SEventInterceptor" where
  "on_block_event etype malloc_ok interceptor bid wal ts =
     (if \<not> enable_interception (interceptor_config interceptor) then (0, interceptor)
      else if \<not> malloc_ok then (-1, interceptor)
      else
        let event = \<lparr>event_type = etype, event_block_id = bid, event_wal_offset = wal,
                      event_timestamp = ts\<rparr>;
            (result, buf) = ring_buffer_enqueue (event_buffer interceptor)
                              (buffer_size interceptor) event
        in if result \<noteq> 0
           then (result, interceptor\<lparr>events_dropped := events_dropped interceptor + 1\<rparr>)
           else (result, interceptor\<lparr>event_buffer := buf\<rparr>))"

definition event_interceptor_on_block_create ::
  "bool \<Rightarrow> SEventInterceptor \<Rightarrow> u64 \<Rightarrow> u64 \<Rightarrow> i64 \<Rightarrow> int \<times> SEventInterceptor" where
  "event_interceptor_on_block_create = on_block_event EVENT_BLOCK_CREATE"

definition event_interceptor_on_block_update ::
  "bool \<Rightarrow> SEventInterceptor \<Rightarrow> u64 \<Rightarrow> u64 \<Rightarrow> i64 \<Rightarrow> int \<times> SEventInterceptor" where
  "event_interceptor_on_block_update = on_block_event EVENT_BLOCK_UPDATE"

definition event_interceptor_on_block_flush ::
  "bool \<Rightarrow> SEventInterceptor \<Rightarrow> u64 \<Rightarrow> u64 \<Rightarrow> i64 \<Rightarrow> int \<times> SEventInterceptor" where
  "event_interceptor_on_block_flush = on_block_event EVENT_BLOCK_FLUSH"

definition event_interceptor_on_block_delete ::
  "bool \<Rightarrow> SEventInterceptor \<Rightarrow> u64 \<Rightarrow> u64 \<Rightarrow> i64 \<Rightarrow> int \<times> SEventInterceptor" where
  "event_interceptor_on_block_delete = on_block_event EVENT_BLOCK_DELETE"

text \<open>
  One pass through the body of the \<^verbatim>\<open>while\<close> loop of \<^verbatim>\<open>callback_thread_func\<close>: dequeue;
  when an event came, call the user callback if there is one and count the event.
\<close>

definition callback_thread_iteration ::
  "SEventInterceptor \<Rightarrow> SBitmapEngine \<Rightarrow> SEventInterceptor \<times> SBitmapEngine" where
  "callback_thread_iteration interceptor engine =
     (case ring_buffer_dequeue_blocking (event_buffer interceptor) of
        None \<Rightarrow> (interceptor, engine)
      | Some (event, rest) \<Rightarrow>
          let engine' = (case callback (interceptor_config interceptor) of
                           Some cb \<Rightarrow> cb event engine
                         | None \<Rightarrow> engine)
          in (interceptor\<lparr>event_buffer := rest,
                          events_processed := events_processed interceptor + 1\<rparr>, engine'))"

text \<open>
  The loop itself, with fuel: \<open>None\<close> when the worker is still in its loop after \<open>fuel\<close>
  passes, \<open>Some\<close> when it has returned.
\<close>

fun callback_thread_func ::
  "nat \<Rightarrow> SEventInterceptor \<Rightarrow> SBitmapEngine \<Rightarrow> (SEventInterceptor \<times> SBitmapEngine) option" where
  "callback_thread_func 0 interceptor engine = None"
| "callback_thread_func (Suc fuel) interceptor engine =
     (if stop_threads interceptor then Some (interceptor, engine)
      else case callback_thread_iteration interceptor engine of
             (i', e') \<Rightarrow> callback_thread_func fuel i' e')"

text \<open>A number of passes through the body of the loop, one after the other.\<close>

fun worker_passes ::
  "nat \<Rightarrow> SEventInterceptor \<Rightarrow> SBitmapEngine \<Rightarrow> SEventInterceptor \<times> SBitmapEngine" where
  "worker_passes 0 interceptor engine = (interceptor, engine)"
| "worker_passes (Suc k) interceptor engine =
     (case callback_thread_iteration interceptor engine of
        (i', e') \<Rightarrow> worker_passes k i' e')"

text \<open>
  \<open>create_ok k\<close> says whether \<^verbatim>\<open>pthread_create\<close> of worker \<open>k\<close> succeeds. When it fails
  for a worker after the first, the source joins the workers it has created; they are in
  their loop with \<^verbatim>\<open>stop_threads\<close> false, so the join does not return: \<open>None\<close>.
\<close>

definition event_interceptor_start ::
  "(nat \<Rightarrow> bool) \<Rightarrow> SEventInterceptor \<Rightarrow> (int \<times> SEventInterceptor) option" where
  "event_interceptor_start create_ok interceptor =
     (if stop_threads interceptor then Some (0, interceptor)
      else
        let i1 = interceptor\<lparr>stop_threads := False\<rparr>
        in case List.find (\<lambda>k. \<not> create_ok k) [0..<unat (thread_count i1)] of
             None \<Rightarrow> Some (0, i1\<lparr>live_workers := live_workers i1 + unat (thread_count i1)\<rparr>)
           | Some k \<Rightarrow> if k = 0 then Some (-1, i1) else None)"

text \<open>
  \<^verbatim>\<open>pthread_join\<close> returns when the worker has left its loop, which it does once it reads
  \<^verbatim>\<open>stop_threads\<close> as true; the joined workers are no longer live.
\<close>

definition event_interceptor_stop :: "SEventInterceptor \<Rightarrow> int \<times> SEventInterceptor" where
  "event_interceptor_stop interceptor =
     (if \<not> stop_threads interceptor then (0, interceptor)
      else (0, interceptor\<lparr>stop_threads := True,
                live_workers := live_workers interceptor - unat (thread_count interceptor)\<rparr>))"

subsection \<open>The transition matrix of the specification, and sequences of calls\<close>

text \<open>
  The matrix as the specification draws it (rows from, columns to); a cell that is not
  ticked does not allow the transition.
\<close>

fun spec_transition_allowed :: "EBlockState \<Rightarrow> EBlockState \<Rightarrow> bool" where
  "spec_transition_allowed BLOCK_STATE_CLEAN BLOCK_STATE_DIRTY = True"
| "spec_transition_allowed BLOCK_STATE_CLEAN BLOCK_STATE_NEW = True"
| "spec_transition_allowed BLOCK_STATE_CLEAN BLOCK_STATE_DELETED = True"
| "spec_transition_allowed BLOCK_STATE_DIRTY BLOCK_STATE_CLEAN = True"
| "spec_transition_allowed BLOCK_STATE_DIRTY BLOCK_STATE_DELETED = True"
| "spec_transition_allowed BLOCK_STATE_NEW BLOCK_STATE_DIRTY = True"
| "spec_transition_allowed BLOCK_STATE_NEW BLOCK_STATE_DELETED = True"
| "spec_transition_allowed _ _ = False"

text \<open>The request that moves a block to a target state.\<close>

definition mark_request ::
  "bool \<Rightarrow> SBitmapEngine \<Rightarrow> EBlockState \<Rightarrow> u64 \<Rightarrow> u64 \<Rightarrow> i64 \<Rightarrow> engine_rc \<times> SBitmapEngine" where
  "mark_request malloc_ok engine target bid wal ts =
     (case target of
        BLOCK_STATE_CLEAN \<Rightarrow> bitmap_engine_clear_block engine bid
      | BLOCK_STATE_DIRTY \<Rightarrow> bitmap_engine_mark_dirty malloc_ok engine bid wal ts
      | BLOCK_STATE_NEW \<Rightarrow> bitmap_engine_mark_new malloc_ok engine bid wal ts
      | BLOCK_STATE_DELETED \<Rightarrow> bitmap_engine_mark_deleted malloc_ok engine bid wal ts)"

text \<open>A call of one of the four mutators with its arguments, and a run of such calls.\<close>

datatype engine_call =
  Mark_Dirty bool u64 u64 i64
| Mark_New bool u64 u64 i64
| Mark_Deleted bool u64 u64 i64
| Clear_Block u64

fun apply_call :: "engine_call \<Rightarrow> SBitmapEngine \<Rightarrow> engine_rc \<times> SBitmapEngine" where
  "apply_call (Mark_Dirty malloc_ok bid wal ts) e = bitmap_engine_mark_dirty malloc_ok e bid wal ts"
| "apply_call (Mark_New malloc_ok bid wal ts) e = bitmap_engine_mark_new malloc_ok e bid wal ts"
| "apply_call (Mark_Deleted malloc_ok bid wal ts) e = bitmap_engine_mark_deleted malloc_ok e bid wal ts"
| "apply_call (Clear_Block bid) e = bitmap_engine_clear_block e bid"

fun run_calls :: "engine_call list \<Rightarrow> SBitmapEngine \<Rightarrow> SBitmapEngine" where
  "run_calls [] e = e"
| "run_calls (c # cs) e = run_calls cs (snd (apply_call c e))"

subsection \<open>Invariants of the engine\<close>

text \<open>No bucket chain holds two nodes of one block.\<close>

definition chains_distinct :: "SBitmapEngine \<Rightarrow> bool" where
  "chains_distinct e = (\<forall>h. distinct (map node_block_id (metadata_map e h)))"

text \<open>
  Where a block is, given its metadata: in no bitmap without metadata; in the bitmap of
  its state otherwise, out of the bitmaps of the states it cannot have come from.
\<close>

definition block_placed :: "SBitmapEngine \<Rightarrow> u64 \<Rightarrow> bool" where
  "block_placed e b =
     (case find_block_metadata e b of
        None \<Rightarrow> b \<notin> dirty_blocks e \<and> b \<notin> new_blocks e \<and> b \<notin> deleted_blocks e
      | Some n \<Rightarrow>
          (case state (node_metadata n) of
             BLOCK_STATE_CLEAN \<Rightarrow> False
           | BLOCK_STATE_DIRTY \<Rightarrow> b \<in> dirty_blocks e \<and> b \<notin> deleted_blocks e
           | BLOCK_STATE_NEW \<Rightarrow> b \<in> new_blocks e \<and> b \<notin> dirty_blocks e \<and> b \<notin> deleted_blocks e
           | BLOCK_STATE_DELETED \<Rightarrow> b \<in> deleted_blocks e))"

text \<open>
  A counter follows a bitmap up to the 32 bits at which \<^verbatim>\<open>bitmap_engine_clear_block\<close>
  recomputes it: it is at most the cardinality and differs from it by a multiple of \<open>2^32\<close>.
\<close>

definition counter_tracks :: "u64 \<Rightarrow> bitmap \<Rightarrow> bool" where
  "counter_tracks c bm = (unat c \<le> card bm \<and> 2 ^ 32 dvd (card bm - unat c))"

definition engine_inv :: "SBitmapEngine \<Rightarrow> bool" where
  "engine_inv e =
     (chains_distinct e \<and> (\<forall>b. block_placed e b) \<and>
      counter_tracks (dirty_count e) (dirty_blocks e) \<and>
      counter_tracks (new_count e) (new_blocks e) \<and>
      counter_tracks (deleted_count e) (deleted_blocks e))"

subsection \<open>Scenarios\<close>

text \<open>
  The basic life cycle of the specification: block 1001 is marked dirty, then deleted.
\<close>

definition lifecycle_engine :: SBitmapEngine where
  "lifecycle_engine =
     run_calls [Mark_Dirty True 1001 1000 1000000, Mark_Deleted True 1001 1001 2000000]
       bitmap_engine_init"

text \<open>Block 7 is created and then updated.\<close>

definition remark_calls :: "engine_call list" where
  "remark_calls = [Mark_New True 7 100 1, Mark_Dirty True 7 200 2]"

text \<open>
  A run with successful calls, a call that finds no memory (block 9) and a call the
  matrix forbids (block 7 to NEW again).
\<close>

definition mixed_calls :: "engine_call list" where
  "mixed_calls =
     [Mark_New True 7 100 1, Mark_Dirty True 7 200 2, Mark_Dirty True 8 300 3,
      Clear_Block 8, Mark_Dirty False 9 400 4, Mark_New True 7 500 5,
      Mark_Deleted True 10 600 6]"

text \<open>
  A run that marks the \<open>n\<close> blocks \<open>0, ..., n - 1\<close> dirty, and the run that does so for
  \<open>2^32 + 1\<close> blocks and then clears block 0.
\<close>

definition fill_calls :: "nat \<Rightarrow> engine_call list" where
  "fill_calls n = map (\<lambda>i. Mark_Dirty True (of_nat i) 0 0) [0..<n]"

definition overflow_calls :: "engine_call list" where
  "overflow_calls = fill_calls 4294967297 @ [Clear_Block 0]"

text \<open>
  The range scenario of the specification: blocks 1001 to 1004 are marked dirty at WAL
  offsets 1000 to 4000 (and times 10 to 40). The coordinator has the configuration that
  \<^verbatim>\<open>backup_plugin_init\<close> sets up.
\<close>

definition range_engine :: SBitmapEngine where
  "range_engine =
     run_calls [Mark_Dirty True 1001 1000 10, Mark_Dirty True 1002 2000 20,
                Mark_Dirty True 1003 3000 30, Mark_Dirty True 1004 4000 40]
       bitmap_engine_init"

definition default_config :: SBackupCoordinatorConfig where
  "default_config =
     \<lparr>max_blocks_per_batch = 1000, batch_timeout_ms = 5000, enable_compression = True,
      enable_encryption = False, error_retry_max = 10, error_retry_interval = 5,
      enable_error_logging = True, error_buffer_size = 1000,
      backup_max_size = 1073741824, compression_level = 1\<rparr>"

definition range_coordinator :: SBackupCoordinator where
  "range_coordinator = backup_coordinator_init default_config range_engine"









text \<open>
  The retry scenario of the specification: the operation returns Network at every call,
  \<open>max_retries = 3\<close>, and the clock stands still.
\<close>

definition always_network :: "nat \<Rightarrow> int" where
  "always_network n = BACKUP_ERROR_NETWORK"

definition still_clock :: "nat \<Rightarrow> u64" where
  "still_clock n = 0"

text \<open>
  The interceptor as \<^verbatim>\<open>backup_plugin_init\<close> configures it (two workers, no callback), its
  state after a start in which every \<^verbatim>\<open>pthread_create\<close> succeeds, and a CREATE event.
\<close>

definition plugin_interceptor_config :: SEventInterceptorConfig where
  "plugin_interceptor_config =
     \<lparr>enable_interception = True, event_buffer_size = 10000, callback_threads = 2,
      callback = None\<rparr>"

definition all_created :: "nat \<Rightarrow> bool" where
  "all_created k = True"

definition started_interceptor :: SEventInterceptor where
  "started_interceptor =
     \<lparr>interceptor_config = plugin_interceptor_config, event_buffer = [],
      buffer_size = 10000, thread_count = 2, stop_threads = False,
      events_processed = 0, events_dropped = 0, live_workers = 2\<rparr>"

definition create_event :: SBlockEvent where
  "create_event =
     \<lparr>event_type = EVENT_BLOCK_CREATE, event_block_id = 1, event_wal_offset = 100,
      event_timestamp = 5\<rparr>"

section \<open>Properties\<close>

subsection \<open>The metadata table\<close>

lemma find_node_id: "find_node c b = Some n \<Longrightarrow> node_block_id n = b"
  by (induction c) (auto split: if_splits)

lemma find_node_None_iff: "find_node c b = None \<longleftrightarrow> b \<notin> node_block_id ` set c"
  by (induction c) auto

lemma find_node_update:
  "find_node (update_node c b m) b' =
     (if b' = b then map_option (\<lambda>n. n\<lparr>node_metadata := m\<rparr>) (find_node c b) else find_node c b')"
  by (induction c) auto

lemma ids_update_node: "map node_block_id (update_node c b m) = map node_block_id c"
  by (induction c) auto

lemma remove_node_None_iff: "remove_node c b = None \<longleftrightarrow> find_node c b = None"
  by (induction c) auto

lemma find_node_remove:
  "distinct (map node_block_id c) \<Longrightarrow> remove_node c b = Some c' \<Longrightarrow>
     find_node c' b' = (if b' = b then None else find_node c b')"
  by (induction c arbitrary: c') (auto simp: find_node_None_iff split: if_splits)

lemma distinct_remove_node:
  "distinct (map node_block_id c) \<Longrightarrow> remove_node c b = Some c' \<Longrightarrow>
     distinct (map node_block_id c') \<and> set c' \<subseteq> set c"
proof (induction c arbitrary: c')
  case Nil
  then show ?case by simp
next
  case (Cons n c)
  show ?case
  proof (cases "node_block_id n = b")
    case True
    with Cons.prems show ?thesis by auto
  next
    case False
    with Cons.prems obtain r where r: "remove_node c b = Some r" "c' = n # r"
      by auto
    with Cons.IH [of r] Cons.prems have "distinct (map node_block_id r)" "set r \<subseteq> set c"
      by auto
    with r Cons.prems show ?thesis by auto
  qed
qed

lemma insert_fields:
  assumes "insert_block_metadata mo e m = (rc, e')"
  shows "dirty_blocks e' = dirty_blocks e" "new_blocks e' = new_blocks e"
    "deleted_blocks e' = deleted_blocks e" "metadata_map_size e' = metadata_map_size e"
    "time_index e' = time_index e" "wal_index e' = wal_index e"
    "total_blocks e' = total_blocks e" "dirty_count e' = dirty_count e"
    "new_count e' = new_count e" "deleted_count e' = deleted_count e"
  using assms
  by (auto simp: insert_block_metadata_def Let_def split: option.splits if_splits)

lemma insert_fail:
  "insert_block_metadata mo e m = (rc, e') \<Longrightarrow> rc \<noteq> 0 \<Longrightarrow> e' = e"
  by (auto simp: insert_block_metadata_def Let_def split: option.splits if_splits)

lemma insert_rc:
  "fst (insert_block_metadata mo e m) = (if mo \<or> find_block_metadata e (block_id m) \<noteq> None then 0 else -1)"
  by (auto simp: insert_block_metadata_def Let_def split: option.splits if_splits)

lemma insert_find:
  assumes "insert_block_metadata mo e m = (0, e')"
  shows "find_block_metadata e' b =
     (if b = block_id m then Some \<lparr>node_block_id = block_id m, node_metadata = m\<rparr>
      else find_block_metadata e b)"
proof (cases "find_block_metadata e (block_id m)")
  case None
  with assms show ?thesis
    by (auto simp: insert_block_metadata_def Let_def find_block_metadata_def split: if_splits)
next
  case (Some n)
  then have "node_block_id n = block_id m"
    by (simp add: find_block_metadata_def find_node_id)
  with Some assms show ?thesis
    by (auto simp: insert_block_metadata_def Let_def find_block_metadata_def find_node_update)
qed

lemma insert_distinct:
  assumes "insert_block_metadata mo e m = (rc, e')" "chains_distinct e"
  shows "chains_distinct e'"
  using assms
  by (auto simp: insert_block_metadata_def Let_def chains_distinct_def find_block_metadata_def
      ids_update_node find_node_None_iff split: option.splits if_splits)

lemma find_block_metadata_upd [simp]:
  "find_block_metadata (e\<lparr>dirty_blocks := bm\<rparr>) = find_block_metadata e"
  "find_block_metadata (e\<lparr>new_blocks := bm\<rparr>) = find_block_metadata e"
  "find_block_metadata (e\<lparr>deleted_blocks := bm\<rparr>) = find_block_metadata e"
  "find_block_metadata (e\<lparr>time_index := sl\<rparr>) = find_block_metadata e"
  "find_block_metadata (e\<lparr>wal_index := sl\<rparr>) = find_block_metadata e"
  "find_block_metadata (e\<lparr>total_blocks := c\<rparr>) = find_block_metadata e"
  "find_block_metadata (e\<lparr>dirty_count := c\<rparr>) = find_block_metadata e"
  "find_block_metadata (e\<lparr>new_count := c\<rparr>) = find_block_metadata e"
  "find_block_metadata (e\<lparr>deleted_count := c\<rparr>) = find_block_metadata e"
  "find_block_metadata (e\<lparr>metadata_count := n\<rparr>) = find_block_metadata e"
  by (simp_all add: find_block_metadata_def fun_eq_iff)

lemma chains_distinct_upd [simp]:
  "chains_distinct (e\<lparr>dirty_blocks := bm\<rparr>) = chains_distinct e"
  "chains_distinct (e\<lparr>new_blocks := bm\<rparr>) = chains_distinct e"
  "chains_distinct (e\<lparr>deleted_blocks := bm\<rparr>) = chains_distinct e"
  "chains_distinct (e\<lparr>time_index := sl\<rparr>) = chains_distinct e"
  "chains_distinct (e\<lparr>wal_index := sl\<rparr>) = chains_distinct e"
  "chains_distinct (e\<lparr>total_blocks := c\<rparr>) = chains_distinct e"
  "chains_distinct (e\<lparr>dirty_count := c\<rparr>) = chains_distinct e"
  "chains_distinct (e\<lparr>new_count := c\<rparr>) = chains_distinct e"
  "chains_distinct (e\<lparr>deleted_count := c\<rparr>) = chains_distinct e"
  "chains_distinct (e\<lparr>metadata_count := n\<rparr>) = chains_distinct e"
  by (simp_all add: chains_distinct_def)

subsection \<open>The effect of the four mutators\<close>

lemma validate_iff_spec:
  "bitmap_engine_validate_state_transition a b = RC_SUCCESS \<longleftrightarrow> spec_transition_allowed a b"
  by (cases a; cases b;
      simp add: bitmap_engine_validate_state_transition_def STATE_TRANSITION_MATRIX_def)


lemma mark_dirty_effect:
  assumes "spec_transition_allowed (current_state_of e b) BLOCK_STATE_DIRTY"
    and "mo \<or> find_block_metadata e b \<noteq> None"
  obtains e' where "bitmap_engine_mark_dirty mo e b w t = (RC_SUCCESS, e')"
    "dirty_blocks e' = insert b (dirty_blocks e)" "new_blocks e' = new_blocks e"
    "deleted_blocks e' = deleted_blocks e"
    "dirty_count e' = dirty_count e + 1" "new_count e' = new_count e"
    "deleted_count e' = deleted_count e"
    "\<And>b'. find_block_metadata e' b' =
       (if b' = b then Some \<lparr>node_block_id = b, node_metadata =
            \<lparr>block_id = b, wal_offset = w, timestamp = t, state = BLOCK_STATE_DIRTY\<rparr>\<rparr>
        else find_block_metadata e b')"
    "chains_distinct e \<Longrightarrow> chains_distinct e'"
proof -
  let ?m = "\<lparr>block_id = b, wal_offset = w, timestamp = t, state = BLOCK_STATE_DIRTY\<rparr>"
  obtain rc e1 where ins: "insert_block_metadata mo e ?m = (rc, e1)"
    by (cases "insert_block_metadata mo e ?m")
  with assms(2) insert_rc [of mo e ?m] have rc: "rc = 0" by auto
  note f = insert_fields [OF ins] insert_find [OF ins [unfolded rc]] insert_distinct [OF ins]
  show ?thesis
    by (rule that [of "snd (bitmap_engine_mark_dirty mo e b w t)"])
       (simp_all add: bitmap_engine_mark_dirty_def Let_def validate_iff_spec assms(1) ins rc f
          add_time_index_def add_wal_index_def tdengine_roaring_add_def)
qed

lemma mark_new_effect:
  assumes "spec_transition_allowed (current_state_of e b) BLOCK_STATE_NEW"
    and "mo \<or> find_block_metadata e b \<noteq> None"
  obtains e' where "bitmap_engine_mark_new mo e b w t = (RC_SUCCESS, e')"
    "dirty_blocks e' = dirty_blocks e" "new_blocks e' = insert b (new_blocks e)"
    "deleted_blocks e' = deleted_blocks e"
    "dirty_count e' = dirty_count e" "new_count e' = new_count e + 1"
    "deleted_count e' = deleted_count e"
    "\<And>b'. find_block_metadata e' b' =
       (if b' = b then Some \<lparr>node_block_id = b, node_metadata =
            \<lparr>block_id = b, wal_offset = w, timestamp = t, state = BLOCK_STATE_NEW\<rparr>\<rparr>
        else find_block_metadata e b')"
    "chains_distinct e \<Longrightarrow> chains_distinct e'"
proof -
  let ?m = "\<lparr>block_id = b, wal_offset = w, timestamp = t, state = BLOCK_STATE_NEW\<rparr>"
  obtain rc e1 where ins: "insert_block_metadata mo e ?m = (rc, e1)"
    by (cases "insert_block_metadata mo e ?m")
  with assms(2) insert_rc [of mo e ?m] have rc: "rc = 0" by auto
  note f = insert_fields [OF ins] insert_find [OF ins [unfolded rc]] insert_distinct [OF ins]
  show ?thesis
    by (rule that [of "snd (bitmap_engine_mark_new mo e b w t)"])
       (simp_all add: bitmap_engine_mark_new_def Let_def validate_iff_spec assms(1) ins rc f
          add_time_index_def add_wal_index_def tdengine_roaring_add_def)
qed

lemma mark_deleted_effect:
  assumes "spec_transition_allowed (current_state_of e b) BLOCK_STATE_DELETED"
    and "mo \<or> find_block_metadata e b \<noteq> None"
  obtains e' where "bitmap_engine_mark_deleted mo e b w t = (RC_SUCCESS, e')"
    "dirty_blocks e' = dirty_blocks e" "new_blocks e' = new_blocks e"
    "deleted_blocks e' = insert b (deleted_blocks e)"
    "dirty_count e' = dirty_count e" "new_count e' = new_count e"
    "deleted_count e' = deleted_count e + 1"
    "\<And>b'. find_block_metadata e' b' =
       (if b' = b then Some \<lparr>node_block_id = b, node_metadata =
            \<lparr>block_id = b, wal_offset = w, timestamp = t, state = BLOCK_STATE_DELETED\<rparr>\<rparr>
        else find_block_metadata e b')"
    "chains_distinct e \<Longrightarrow> chains_distinct e'"
proof -
  let ?m = "\<lparr>block_id = b, wal_offset = w, timestamp = t, state = BLOCK_STATE_DELETED\<rparr>"
  obtain rc e1 where ins: "insert_block_metadata mo e ?m = (rc, e1)"
    by (cases "insert_block_metadata mo e ?m")
  with assms(2) insert_rc [of mo e ?m] have rc: "rc = 0" by auto
  note f = insert_fields [OF ins] insert_find [OF ins [unfolded rc]] insert_distinct [OF ins]
  show ?thesis
    by (rule that [of "snd (bitmap_engine_mark_deleted mo e b w t)"])
       (simp_all add: bitmap_engine_mark_deleted_def Let_def validate_iff_spec assms(1) ins rc f
          add_time_index_def add_wal_index_def tdengine_roaring_add_def)
qed

lemma mark_forbidden:
  "\<not> spec_transition_allowed (current_state_of e b) BLOCK_STATE_DIRTY \<Longrightarrow>
     bitmap_engine_mark_dirty mo e b w t = (ERR_INVALID_STATE_TRANS, e)"
  "\<not> spec_transition_allowed (current_state_of e b) BLOCK_STATE_NEW \<Longrightarrow>
     bitmap_engine_mark_new mo e b w t = (ERR_INVALID_STATE_TRANS, e)"
  "\<not> spec_transition_allowed (current_state_of e b) BLOCK_STATE_DELETED \<Longrightarrow>
     bitmap_engine_mark_deleted mo e b w t = (ERR_INVALID_STATE_TRANS, e)"
  by (simp_all add: bitmap_engine_mark_dirty_def bitmap_engine_mark_new_def
      bitmap_engine_mark_deleted_def Let_def validate_iff_spec)

lemma mark_no_memory:
  assumes "find_block_metadata e b = None"
  shows "bitmap_engine_mark_dirty False e b w t = (RC_MINUS_ONE, e)"
    "bitmap_engine_mark_new False e b w t = (RC_MINUS_ONE, e)"
    "bitmap_engine_mark_deleted False e b w t = (RC_MINUS_ONE, e)"
  using assms
  by (simp_all add: bitmap_engine_mark_dirty_def bitmap_engine_mark_new_def
      bitmap_engine_mark_deleted_def Let_def validate_iff_spec current_state_of_def
      insert_block_metadata_def)

lemma clear_block_failure:
  "find_block_metadata e b = None \<Longrightarrow>
     bitmap_engine_clear_block e b = (ERR_BLOCK_NOT_FOUND, e)"
  "find_block_metadata e b = Some n \<Longrightarrow> state (node_metadata n) \<noteq> BLOCK_STATE_DIRTY \<Longrightarrow>
     bitmap_engine_clear_block e b = (ERR_INVALID_STATE_TRANS, e)"
  by (cases "state (node_metadata n)";
      simp add: bitmap_engine_clear_block_def Let_def validate_iff_spec)+

lemma remove_block_metadata_effect:
  assumes "chains_distinct e" "find_block_metadata e b \<noteq> None"
  shows "find_block_metadata (snd (remove_block_metadata e b)) b' =
           (if b' = b then None else find_block_metadata e b')"
    and "chains_distinct (snd (remove_block_metadata e b))"
    and "dirty_blocks (snd (remove_block_metadata e b)) = dirty_blocks e"
    and "new_blocks (snd (remove_block_metadata e b)) = new_blocks e"
    and "deleted_blocks (snd (remove_block_metadata e b)) = deleted_blocks e"
proof -
  let ?h = "hash_block_id b (metadata_map_size e)"
  from assms(2) obtain c where c: "remove_node (metadata_map e ?h) b = Some c"
    using remove_node_None_iff [of "metadata_map e ?h" b]
    by (auto simp: find_block_metadata_def)
  from assms(1) have d: "distinct (map node_block_id (metadata_map e ?h))"
    by (simp add: chains_distinct_def)
  from find_node_remove [OF d c] distinct_remove_node [OF d c] assms(1)
  show "find_block_metadata (snd (remove_block_metadata e b)) b' =
           (if b' = b then None else find_block_metadata e b')"
    and "chains_distinct (snd (remove_block_metadata e b))"
    and "dirty_blocks (snd (remove_block_metadata e b)) = dirty_blocks e"
    and "new_blocks (snd (remove_block_metadata e b)) = new_blocks e"
    and "deleted_blocks (snd (remove_block_metadata e b)) = deleted_blocks e"
    by (auto simp: remove_block_metadata_def Let_def c find_block_metadata_def chains_distinct_def)
qed

lemma clear_block_effect:
  assumes "find_block_metadata e b = Some n" "state (node_metadata n) = BLOCK_STATE_DIRTY"
    and "chains_distinct e"
  obtains e' where "bitmap_engine_clear_block e b = (RC_SUCCESS, e')"
    "dirty_blocks e' = dirty_blocks e - {b}" "new_blocks e' = new_blocks e - {b}"
    "deleted_blocks e' = deleted_blocks e - {b}"
    "dirty_count e' = ucast (tdengine_roaring_cardinality (dirty_blocks e - {b}))"
    "new_count e' = ucast (tdengine_roaring_cardinality (new_blocks e - {b}))"
    "deleted_count e' = ucast (tdengine_roaring_cardinality (deleted_blocks e - {b}))"
    "\<And>b'. find_block_metadata e' b' = (if b' = b then None else find_block_metadata e b')"
    "chains_distinct e'"
proof -
  let ?e1 = "e\<lparr>dirty_blocks := dirty_blocks e - {b},
               new_blocks := new_blocks e - {b},
               deleted_blocks := deleted_blocks e - {b}\<rparr>"
  have "chains_distinct ?e1" "find_block_metadata ?e1 b \<noteq> None"
    using assms by simp_all
  note r = remove_block_metadata_effect [OF this]
  show ?thesis
    by (rule that [of "snd (bitmap_engine_clear_block e b)"])
       (simp_all add: bitmap_engine_clear_block_def Let_def validate_iff_spec assms r
          tdengine_roaring_remove_def)
qed

subsection \<open>Counters\<close>

lemma counter_tracks_empty: "counter_tracks 0 {}"
  by (simp add: counter_tracks_def)

lemma counter_tracks_insert:
  assumes "b \<notin> S" "counter_tracks c S"
  shows "counter_tracks (c + 1) (insert b S)"
proof -
  have cd: "card (insert b S) = Suc (card S)"
    using assms(1) by simp
  from assms(2) have le: "unat c \<le> card S" and dv: "2 ^ 32 dvd (card S - unat c)"
    by (simp_all add: counter_tracks_def)
  have S: "card S < 2 ^ 64"
  proof -
    have "card (insert b S) \<le> card (UNIV :: u64 set)"
      by (rule card_mono) simp_all
    then show ?thesis by (simp add: cd card_word)
  qed
  show ?thesis
  proof (cases "unat c + 1 < 2 ^ 64")
    case True
    then have "unat (c + 1) = unat c + 1"
      by (simp add: unat_word_ariths)
    with le dv cd show ?thesis
      by (simp add: counter_tracks_def)
  next
    case False
    with le S have c: "unat c = 2 ^ 64 - 1" and s: "card S = 2 ^ 64 - 1"
      by simp_all
    have "unat (c + 1) = (unat c + 1) mod 2 ^ 64"
      by (simp add: unat_word_ariths)
    with c have "unat (c + 1) = 0" by simp
    moreover have "(2::nat) ^ 32 dvd 2 ^ 64"
      by (rule le_imp_power_dvd) simp
    ultimately show ?thesis
      using cd s by (simp add: counter_tracks_def)
  qed
qed

lemma counter_tracks_recount:
  "counter_tracks (ucast (tdengine_roaring_cardinality S)) S"
proof -
  have "unat (ucast (word_of_nat (card S) :: u32) :: u64) = card S mod 2 ^ 32"
    by (simp add: unsigned_ucast_eq unat_of_nat take_bit_eq_mod)
  moreover have "(2::nat) ^ 32 dvd (card S - card S mod 2 ^ 32)"
    by (simp add: minus_mod_eq_mult_div)
  ultimately show ?thesis
    by (simp add: counter_tracks_def tdengine_roaring_cardinality_def)
qed

lemma counter_tracks_exact:
  assumes "counter_tracks c S" "card S < 2 ^ 32"
  shows "unat c = card S"
proof -
  from assms have "2 ^ 32 dvd (card S - unat c)" "card S - unat c < 2 ^ 32" "unat c \<le> card S"
    by (simp_all add: counter_tracks_def)
  then have "card S - unat c = 0"
    by (meson dvd_imp_le not_less zero_less_iff_neq_zero)
  with \<open>unat c \<le> card S\<close> show ?thesis by simp
qed

subsection \<open>The invariant holds in every reachable state\<close>

lemma engine_inv_init: "engine_inv bitmap_engine_init"
  by (simp add: engine_inv_def bitmap_engine_init_def chains_distinct_def block_placed_def
      find_block_metadata_def counter_tracks_def tdengine_roaring_create_def)

lemma engine_inv_current_state:
  assumes "engine_inv e"
  shows "current_state_of e b = BLOCK_STATE_CLEAN \<longleftrightarrow> find_block_metadata e b = None"
  using assms [unfolded engine_inv_def block_placed_def, THEN conjunct2, THEN conjunct1, rule_format, of b]
  by (auto simp: current_state_of_def split: option.splits EBlockState.splits)

lemma engine_inv_mark_dirty:
  assumes inv: "engine_inv e"
  shows "engine_inv (snd (bitmap_engine_mark_dirty mo e b w t))"
proof (cases "spec_transition_allowed (current_state_of e b) BLOCK_STATE_DIRTY")
  case False
  with inv show ?thesis by (simp add: mark_forbidden)
next
  case allowed: True
  from inv have pl: "block_placed e b'" for b'
    by (simp add: engine_inv_def)
  show ?thesis
  proof (cases "mo \<or> find_block_metadata e b \<noteq> None")
    case False
    with inv show ?thesis by (simp add: mark_no_memory)
  next
    case True
    from allowed have fresh: "b \<notin> dirty_blocks e" "b \<notin> deleted_blocks e"
      using pl [of b]
      by (cases "current_state_of e b";
          auto simp: block_placed_def current_state_of_def split: option.splits EBlockState.splits)+
    from mark_dirty_effect [OF allowed True, of w t] obtain e' where
      e': "bitmap_engine_mark_dirty mo e b w t = (RC_SUCCESS, e')"
      "dirty_blocks e' = insert b (dirty_blocks e)" "new_blocks e' = new_blocks e"
      "deleted_blocks e' = deleted_blocks e"
      "dirty_count e' = dirty_count e + 1" "new_count e' = new_count e"
      "deleted_count e' = deleted_count e"
      "\<And>b'. find_block_metadata e' b' =
         (if b' = b then Some \<lparr>node_block_id = b, node_metadata =
              \<lparr>block_id = b, wal_offset = w, timestamp = t, state = BLOCK_STATE_DIRTY\<rparr>\<rparr>
          else find_block_metadata e b')"
      "chains_distinct e \<Longrightarrow> chains_distinct e'"
      by metis
    have "block_placed e' b'" for b'
      using pl [of b'] fresh by (auto simp: block_placed_def e' split: option.splits EBlockState.splits)
    moreover have "counter_tracks (dirty_count e') (dirty_blocks e')"
      using inv fresh by (simp add: e' engine_inv_def counter_tracks_insert)
    ultimately show ?thesis
      using inv by (simp add: e' engine_inv_def)
  qed
qed

lemma engine_inv_mark_new:
  assumes inv: "engine_inv e"
  shows "engine_inv (snd (bitmap_engine_mark_new mo e b w t))"
proof (cases "spec_transition_allowed (current_state_of e b) BLOCK_STATE_NEW")
  case False
  with inv show ?thesis by (simp add: mark_forbidden)
next
  case allowed: True
  from inv have pl: "block_placed e b'" for b'
    by (simp add: engine_inv_def)
  show ?thesis
  proof (cases "mo \<or> find_block_metadata e b \<noteq> None")
    case False
    with inv show ?thesis by (simp add: mark_no_memory)
  next
    case True
    from allowed have fresh: "b \<notin> dirty_blocks e" "b \<notin> new_blocks e" "b \<notin> deleted_blocks e"
      using pl [of b]
      by (cases "current_state_of e b";
          auto simp: block_placed_def current_state_of_def split: option.splits EBlockState.splits)+
    from mark_new_effect [OF allowed True, of w t] obtain e' where
      e': "bitmap_engine_mark_new mo e b w t = (RC_SUCCESS, e')"
      "dirty_blocks e' = dirty_blocks e" "new_blocks e' = insert b (new_blocks e)"
      "deleted_blocks e' = deleted_blocks e"
      "dirty_count e' = dirty_count e" "new_count e' = new_count e + 1"
      "deleted_count e' = deleted_count e"
      "\<And>b'. find_block_metadata e' b' =
         (if b' = b then Some \<lparr>node_block_id = b, node_metadata =
              \<lparr>block_id = b, wal_offset = w, timestamp = t, state = BLOCK_STATE_NEW\<rparr>\<rparr>
          else find_block_metadata e b')"
      "chains_distinct e \<Longrightarrow> chains_distinct e'"
      by metis
    have "block_placed e' b'" for b'
      using pl [of b'] fresh by (auto simp: block_placed_def e' split: option.splits EBlockState.splits)
    moreover have "counter_tracks (new_count e') (new_blocks e')"
      using inv fresh by (simp add: e' engine_inv_def counter_tracks_insert)
    ultimately show ?thesis
      using inv by (simp add: e' engine_inv_def)
  qed
qed

lemma engine_inv_mark_deleted:
  assumes inv: "engine_inv e"
  shows "engine_inv (snd (bitmap_engine_mark_deleted mo e b w t))"
proof (cases "spec_transition_allowed (current_state_of e b) BLOCK_STATE_DELETED")
  case False
  with inv show ?thesis by (simp add: mark_forbidden)
next
  case allowed: True
  from inv have pl: "block_placed e b'" for b'
    by (simp add: engine_inv_def)
  show ?thesis
  proof (cases "mo \<or> find_block_metadata e b \<noteq> None")
    case False
    with inv show ?thesis by (simp add: mark_no_memory)
  next
    case True
    from allowed have fresh: "b \<notin> deleted_blocks e"
      using pl [of b]
      by (cases "current_state_of e b";
          auto simp: block_placed_def current_state_of_def split: option.splits EBlockState.splits)
    from mark_deleted_effect [OF allowed True, of w t] obtain e' where
      e': "bitmap_engine_mark_deleted mo e b w t = (RC_SUCCESS, e')"
      "dirty_blocks e' = dirty_blocks e" "new_blocks e' = new_blocks e"
      "deleted_blocks e' = insert b (deleted_blocks e)"
      "dirty_count e' = dirty_count e" "new_count e' = new_count e"
      "deleted_count e' = deleted_count e + 1"
      "\<And>b'. find_block_metadata e' b' =
         (if b' = b then Some \<lparr>node_block_id = b, node_metadata =
              \<lparr>block_id = b, wal_offset = w, timestamp = t, state = BLOCK_STATE_DELETED\<rparr>\<rparr>
          else find_block_metadata e b')"
      "chains_distinct e \<Longrightarrow> chains_distinct e'"
      by metis
    have "block_placed e' b'" for b'
      using pl [of b'] fresh by (auto simp: block_placed_def e' split: option.splits EBlockState.splits)
    moreover have "counter_tracks (deleted_count e') (deleted_blocks e')"
      using inv fresh by (simp add: e' engine_inv_def counter_tracks_insert)
    ultimately show ?thesis
      using inv by (simp add: e' engine_inv_def)
  qed
qed

lemma engine_inv_clear_block:
  assumes inv: "engine_inv e"
  shows "engine_inv (snd (bitmap_engine_clear_block e b))"
proof (cases "find_block_metadata e b")
  case None
  with inv show ?thesis by (simp add: clear_block_failure)
next
  case (Some n)
  show ?thesis
  proof (cases "state (node_metadata n) = BLOCK_STATE_DIRTY")
    case False
    with Some inv show ?thesis by (simp add: clear_block_failure)
  next
    case True
    from inv have pl: "block_placed e b'" and cd: "chains_distinct e" for b'
      by (simp_all add: engine_inv_def)
    from clear_block_effect [OF Some True cd] obtain e' where
      e': "bitmap_engine_clear_block e b = (RC_SUCCESS, e')"
      "dirty_blocks e' = dirty_blocks e - {b}" "new_blocks e' = new_blocks e - {b}"
      "deleted_blocks e' = deleted_blocks e - {b}"
      "dirty_count e' = ucast (tdengine_roaring_cardinality (dirty_blocks e - {b}))"
      "new_count e' = ucast (tdengine_roaring_cardinality (new_blocks e - {b}))"
      "deleted_count e' = ucast (tdengine_roaring_cardinality (deleted_blocks e - {b}))"
      "\<And>b'. find_block_metadata e' b' = (if b' = b then None else find_block_metadata e b')"
      "chains_distinct e'"
      by metis
    have "block_placed e' b'" for b'
      using pl [of b'] by (auto simp: block_placed_def e' split: option.splits EBlockState.splits)
    then show ?thesis
      by (simp add: e' engine_inv_def counter_tracks_recount)
  qed
qed

lemma engine_inv_apply_call: "engine_inv e \<Longrightarrow> engine_inv (snd (apply_call c e))"
  by (cases c)
     (simp_all add: engine_inv_mark_dirty engine_inv_mark_new engine_inv_mark_deleted
        engine_inv_clear_block)

lemma engine_inv_run_calls: "engine_inv e \<Longrightarrow> engine_inv (run_calls cs e)"
  by (induction cs arbitrary: e) (simp_all add: engine_inv_apply_call)

lemma engine_inv_reachable: "engine_inv (run_calls cs bitmap_engine_init)"
  by (simp add: engine_inv_run_calls engine_inv_init)

subsection \<open>Evaluation of concrete runs\<close>

lemmas engine_eval =
  bitmap_engine_mark_dirty_def bitmap_engine_mark_new_def bitmap_engine_mark_deleted_def
  bitmap_engine_clear_block_def bitmap_engine_init_def current_state_of_def
  find_block_metadata_def insert_block_metadata_def remove_block_metadata_def
  hash_block_id_def add_time_index_def add_wal_index_def add_index_def
  bitmap_engine_validate_state_transition_def STATE_TRANSITION_MATRIX_def
  tdengine_roaring_create_def tdengine_roaring_add_def tdengine_roaring_remove_def
  tdengine_roaring_cardinality_def skiplist_create_def mark_request_def Let_def

subsection \<open>C1: requests and the transition matrix\<close>

text \<open>
  C1, as amended. A request for a target state (\<^verbatim>\<open>bitmap_engine_clear_block\<close> for CLEAN, the
  three mark functions for the others) on a block whose current state is \<open>from\<close> (CLEAN
  when it has no metadata) succeeds if and only if the matrix of the specification allows
  the transition, provided the node for a block without metadata can be allocated. When
  the matrix does not allow it, the engine is returned unchanged and the code is
  InvalidStateTransition, except that clearing a block without metadata gives
  BlockNotFound.
\<close>

theorem mark_request_follows_matrix:
  "(mo \<or> find_block_metadata e b \<noteq> None \<longrightarrow>
      (fst (mark_request mo e target b w t) = RC_SUCCESS \<longleftrightarrow>
       spec_transition_allowed (current_state_of e b) target)) \<and>
   (\<not> spec_transition_allowed (current_state_of e b) target \<longrightarrow>
      mark_request mo e target b w t =
        (if target = BLOCK_STATE_CLEAN \<and> find_block_metadata e b = None
         then ERR_BLOCK_NOT_FOUND else ERR_INVALID_STATE_TRANS, e))"
proof (cases target)
  case BLOCK_STATE_CLEAN
  show ?thesis
  proof (cases "find_block_metadata e b")
    case None
    then show ?thesis
      by (simp add: BLOCK_STATE_CLEAN mark_request_def clear_block_failure current_state_of_def)
  next
    case (Some n)
    show ?thesis
    proof (cases "state (node_metadata n) = BLOCK_STATE_DIRTY")
      case True
      with Some show ?thesis
        by (simp add: BLOCK_STATE_CLEAN mark_request_def current_state_of_def
            bitmap_engine_clear_block_def Let_def validate_iff_spec)
    next
      case False
      with Some clear_block_failure(2) [OF Some False] show ?thesis
        by (cases "state (node_metadata n)")
           (simp_all add: BLOCK_STATE_CLEAN mark_request_def current_state_of_def)
    qed
  qed
next
  case BLOCK_STATE_DIRTY
  show ?thesis
  proof (cases "spec_transition_allowed (current_state_of e b) BLOCK_STATE_DIRTY")
    case False
    then show ?thesis
      by (simp add: BLOCK_STATE_DIRTY mark_request_def mark_forbidden)
  next
    case True
    then show ?thesis
      by (auto simp: BLOCK_STATE_DIRTY mark_request_def elim: mark_dirty_effect [of e b mo w t])
  qed
next
  case BLOCK_STATE_NEW
  show ?thesis
  proof (cases "spec_transition_allowed (current_state_of e b) BLOCK_STATE_NEW")
    case False
    then show ?thesis
      by (simp add: BLOCK_STATE_NEW mark_request_def mark_forbidden)
  next
    case True
    then show ?thesis
      by (auto simp: BLOCK_STATE_NEW mark_request_def elim: mark_new_effect [of e b mo w t])
  qed
next
  case BLOCK_STATE_DELETED
  show ?thesis
  proof (cases "spec_transition_allowed (current_state_of e b) BLOCK_STATE_DELETED")
    case False
    then show ?thesis
      by (simp add: BLOCK_STATE_DELETED mark_request_def mark_forbidden)
  next
    case True
    then show ?thesis
      by (auto simp: BLOCK_STATE_DELETED mark_request_def elim: mark_deleted_effect [of e b mo w t])
  qed
qed

text \<open>The basic life cycle: the first mark succeeds; after the deletion a mark is refused.\<close>

lemma lifecycle_state: "current_state_of lifecycle_engine 1001 = BLOCK_STATE_DELETED"
  by (simp add: lifecycle_engine_def engine_eval)

theorem mark_request_follows_matrix_witness:
  "fst (mark_request True bitmap_engine_init BLOCK_STATE_DIRTY 1001 1000 1000000) = RC_SUCCESS \<and>
   \<not> spec_transition_allowed (current_state_of lifecycle_engine 1001) BLOCK_STATE_DIRTY \<and>
   mark_request True lifecycle_engine BLOCK_STATE_DIRTY 1001 1002 3000000 =
     (ERR_INVALID_STATE_TRANS, lifecycle_engine)"
  using mark_request_follows_matrix [of True bitmap_engine_init 1001 BLOCK_STATE_DIRTY 1000 1000000]
    mark_request_follows_matrix [of True lifecycle_engine 1001 BLOCK_STATE_DIRTY 1002 3000000]
  by (simp add: lifecycle_state) (simp add: engine_eval)

text \<open>
  C1 as stated fails: on a fresh engine the matrix has no edge from CLEAN to CLEAN and the
  clear request answers BlockNotFound, not InvalidStateTransition; and the matrix allows
  CLEAN to DIRTY, yet the request fails when the node cannot be allocated.
\<close>

theorem mark_request_counterexample:
  "\<not> spec_transition_allowed (current_state_of bitmap_engine_init 1) BLOCK_STATE_CLEAN \<and>
   fst (mark_request True bitmap_engine_init BLOCK_STATE_CLEAN 1 0 0) = ERR_BLOCK_NOT_FOUND \<and>
   fst (mark_request True bitmap_engine_init BLOCK_STATE_CLEAN 1 0 0) \<noteq> ERR_INVALID_STATE_TRANS \<and>
   spec_transition_allowed (current_state_of bitmap_engine_init 1) BLOCK_STATE_DIRTY \<and>
   fst (mark_request False bitmap_engine_init BLOCK_STATE_DIRTY 1 0 0) \<noteq> RC_SUCCESS"
  by (simp add: engine_eval)

subsection \<open>C2: bitmaps and metadata state\<close>

text \<open>
  C2 at the run that creates block 7 and then updates it: the metadata state is DIRTY and
  the block is in the dirty bitmap and still in the new bitmap, so it is not in exactly one
  of the three bitmaps.
\<close>

theorem remarked_block_in_two_bitmaps:
  "current_state_of (run_calls remark_calls bitmap_engine_init) 7 = BLOCK_STATE_DIRTY \<and>
   7 \<in> dirty_blocks (run_calls remark_calls bitmap_engine_init) \<and>
   7 \<in> new_blocks (run_calls remark_calls bitmap_engine_init)"
  by (simp add: remark_calls_def engine_eval)

text \<open>
  What does hold in every reachable state: a block with metadata is in the bitmap of its
  state, a block without metadata is in no bitmap, and a successful clear leaves the block
  in no bitmap and without metadata.
\<close>

lemma block_in_bitmap_of_its_state:
  assumes "find_block_metadata (run_calls cs bitmap_engine_init) b = Some n"
  shows "(case state (node_metadata n) of
            BLOCK_STATE_CLEAN \<Rightarrow> False
          | BLOCK_STATE_DIRTY \<Rightarrow> b \<in> dirty_blocks (run_calls cs bitmap_engine_init)
          | BLOCK_STATE_NEW \<Rightarrow> b \<in> new_blocks (run_calls cs bitmap_engine_init)
          | BLOCK_STATE_DELETED \<Rightarrow> b \<in> deleted_blocks (run_calls cs bitmap_engine_init))"
  using engine_inv_reachable [of cs] assms
  by (auto simp: engine_inv_def block_placed_def split: EBlockState.splits dest!: spec [of _ b])

lemma block_without_metadata_in_no_bitmap:
  assumes "find_block_metadata (run_calls cs bitmap_engine_init) b = None"
  shows "b \<notin> dirty_blocks (run_calls cs bitmap_engine_init) \<and>
         b \<notin> new_blocks (run_calls cs bitmap_engine_init) \<and>
         b \<notin> deleted_blocks (run_calls cs bitmap_engine_init)"
  using engine_inv_reachable [of cs] assms
  by (auto simp: engine_inv_def block_placed_def dest!: spec [of _ b])

lemma cleared_block_in_no_bitmap:
  assumes "bitmap_engine_clear_block (run_calls cs bitmap_engine_init) b = (RC_SUCCESS, e')"
  shows "b \<notin> dirty_blocks e' \<and> b \<notin> new_blocks e' \<and> b \<notin> deleted_blocks e'
         \<and> find_block_metadata e' b = None"
proof -
  let ?e = "run_calls cs bitmap_engine_init"
  have inv: "engine_inv ?e" by (rule engine_inv_reachable)
  then have cd: "chains_distinct ?e" by (simp add: engine_inv_def)
  from assms obtain n where n: "find_block_metadata ?e b = Some n"
    by (cases "find_block_metadata ?e b") (auto simp: clear_block_failure)
  with assms have d: "state (node_metadata n) = BLOCK_STATE_DIRTY"
    using clear_block_failure(2) [OF n] by auto
  from clear_block_effect [OF n d cd] assms show ?thesis
    by (metis Diff_iff insertI1 prod.inject)
qed

subsection \<open>C7: statistics counters\<close>

lemma counter_tracks_low_bits:
  assumes "counter_tracks c S"
  shows "(ucast c :: u32) = tdengine_roaring_cardinality S"
proof -
  from assms obtain k where k: "card S = unat c + k * 2 ^ 32"
    unfolding counter_tracks_def
    by (metis dvd_def le_add_diff_inverse mult.commute)
  have "unat (ucast c :: u32) = unat c mod 2 ^ 32"
    by (simp add: unsigned_ucast_eq take_bit_eq_mod)
  moreover have "unat (word_of_nat (card S) :: u32) = card S mod 2 ^ 32"
    by (simp add: unat_of_nat)
  moreover have "card S mod 2 ^ 32 = unat c mod 2 ^ 32"
    by (simp add: k)
  ultimately show ?thesis
    by (simp add: tdengine_roaring_cardinality_def word_unat_eq_iff)
qed

text \<open>
  C7, as amended. After any run of mark and clear calls from the initial engine,
  successful or not, each of the dirty, new and deleted counters returned by
  \<^verbatim>\<open>bitmap_engine_get_stats\<close> equals the cardinality of its bitmap whenever that
  cardinality is below \<open>2^32\<close>, and its low 32 bits always equal the 32-bit cardinality the
  bitmap adapter reports.
\<close>

theorem stats_equal_cardinalities:
  "(case bitmap_engine_get_stats (run_calls cs bitmap_engine_init) of
      (n_total, n_dirty, n_new, n_deleted) \<Rightarrow>
        (card (dirty_blocks (run_calls cs bitmap_engine_init)) < 2 ^ 32 \<longrightarrow>
           unat n_dirty = card (dirty_blocks (run_calls cs bitmap_engine_init))) \<and>
        (card (new_blocks (run_calls cs bitmap_engine_init)) < 2 ^ 32 \<longrightarrow>
           unat n_new = card (new_blocks (run_calls cs bitmap_engine_init))) \<and>
        (card (deleted_blocks (run_calls cs bitmap_engine_init)) < 2 ^ 32 \<longrightarrow>
           unat n_deleted = card (deleted_blocks (run_calls cs bitmap_engine_init))) \<and>
        ucast n_dirty = tdengine_roaring_cardinality (dirty_blocks (run_calls cs bitmap_engine_init)) \<and>
        ucast n_new = tdengine_roaring_cardinality (new_blocks (run_calls cs bitmap_engine_init)) \<and>
        ucast n_deleted =
          tdengine_roaring_cardinality (deleted_blocks (run_calls cs bitmap_engine_init)))"
  using engine_inv_reachable [of cs]
  by (simp add: bitmap_engine_get_stats_def engine_inv_def counter_tracks_exact
      counter_tracks_low_bits)

lemma mixed_calls_bitmaps:
  "dirty_blocks (run_calls mixed_calls bitmap_engine_init) = {7}"
  "new_blocks (run_calls mixed_calls bitmap_engine_init) = {7}"
  "deleted_blocks (run_calls mixed_calls bitmap_engine_init) = {10}"
  by (simp_all add: mixed_calls_def engine_eval)

theorem stats_equal_cardinalities_witness:
  "card (dirty_blocks (run_calls mixed_calls bitmap_engine_init)) < 2 ^ 32 \<and>
   card (new_blocks (run_calls mixed_calls bitmap_engine_init)) < 2 ^ 32 \<and>
   card (deleted_blocks (run_calls mixed_calls bitmap_engine_init)) < 2 ^ 32 \<and>
   snd (bitmap_engine_get_stats (run_calls mixed_calls bitmap_engine_init)) = (1, 1, 1)"
  using stats_equal_cardinalities [of mixed_calls]
  by (simp add: mixed_calls_bitmaps bitmap_engine_get_stats_def word_unat_eq_iff)

lemma run_calls_append: "run_calls (xs @ ys) e = run_calls ys (run_calls xs e)"
  by (induction xs arbitrary: e) simp_all

lemma fill_calls_Suc: "fill_calls (Suc n) = fill_calls n @ [Mark_Dirty True (of_nat n) 0 0]"
  by (simp add: fill_calls_def)

lemma of_nat_fresh:
  assumes "n < 2 ^ 64"
  shows "(of_nat n :: u64) \<notin> of_nat ` {0..<n}"
proof
  assume "(of_nat n :: u64) \<in> of_nat ` {0..<n}"
  then obtain i where i: "i < n" "(of_nat n :: u64) = of_nat i" by auto
  then have "unat (of_nat n :: u64) = unat (of_nat i :: u64)" by simp
  with assms i(1) show False by (simp add: unat_of_nat)
qed

lemma card_of_nat_image:
  assumes "n \<le> 2 ^ 64"
  shows "card ((of_nat :: nat \<Rightarrow> u64) ` {0..<n}) = n"
proof -
  have "inj_on (of_nat :: nat \<Rightarrow> u64) {0..<n}"
  proof (rule inj_onI)
    fix x y assume "x \<in> {0..<n}" "y \<in> {0..<n}" "(of_nat x :: u64) = of_nat y"
    then have "unat (of_nat x :: u64) = unat (of_nat y :: u64)" "x < 2 ^ 64" "y < 2 ^ 64"
      using assms by simp_all
    then show "x = y" by (simp add: unat_of_nat)
  qed
  then show ?thesis by (simp add: card_image)
qed

lemma fill_calls_effect:
  assumes "n \<le> 2 ^ 64"
  shows "dirty_blocks (run_calls (fill_calls n) bitmap_engine_init) = of_nat ` {0..<n} \<and>
         (\<forall>b nd. find_block_metadata (run_calls (fill_calls n) bitmap_engine_init) b = Some nd
            \<longrightarrow> state (node_metadata nd) = BLOCK_STATE_DIRTY)"
  using assms
proof (induction n)
  case 0
  show ?case
    by (simp add: fill_calls_def bitmap_engine_init_def find_block_metadata_def
        tdengine_roaring_create_def)
next
  case (Suc n)
  let ?e = "run_calls (fill_calls n) bitmap_engine_init"
  let ?b = "of_nat n :: u64"
  from Suc have IH: "dirty_blocks ?e = of_nat ` {0..<n}"
    "\<And>b nd. find_block_metadata ?e b = Some nd \<Longrightarrow> state (node_metadata nd) = BLOCK_STATE_DIRTY"
    by simp_all
  from Suc.prems have "?b \<notin> dirty_blocks ?e"
    by (simp add: IH(1) of_nat_fresh)
  moreover have "block_placed ?e ?b"
    using engine_inv_reachable [of "fill_calls n"] by (simp add: engine_inv_def)
  ultimately have none: "find_block_metadata ?e ?b = None"
    using IH(2) [of ?b] by (cases "find_block_metadata ?e ?b") (auto simp: block_placed_def)
  then have allowed: "spec_transition_allowed (current_state_of ?e ?b) BLOCK_STATE_DIRTY"
    by (simp add: current_state_of_def)
  obtain e' where
    e': "bitmap_engine_mark_dirty True ?e ?b 0 0 = (RC_SUCCESS, e')"
      "dirty_blocks e' = insert ?b (dirty_blocks ?e)"
      "\<And>b'. find_block_metadata e' b' =
         (if b' = ?b then Some \<lparr>node_block_id = ?b, node_metadata =
              \<lparr>block_id = ?b, wal_offset = 0, timestamp = 0, state = BLOCK_STATE_DIRTY\<rparr>\<rparr>
          else find_block_metadata ?e b')"
    by (rule mark_dirty_effect [OF allowed, of True 0 0]) simp_all
  have run: "run_calls (fill_calls (Suc n)) bitmap_engine_init = e'"
    by (simp add: fill_calls_Suc run_calls_append e')
  have "dirty_blocks e' = of_nat ` {0..<Suc n}"
    by (simp add: e'(2) IH(1) atLeast0_lessThan_Suc)
  moreover have "state (node_metadata nd) = BLOCK_STATE_DIRTY"
    if "find_block_metadata e' b = Some nd" for b nd
    using that IH(2) [of b nd] by (auto simp: e'(3) split: if_splits)
  ultimately show ?case
    unfolding run by blast
qed

lemma overflow_general:
  assumes "0 < n" "n \<le> 2 ^ 64"
  shows "dirty_count (run_calls (fill_calls n @ [Clear_Block 0]) bitmap_engine_init) =
           ucast (tdengine_roaring_cardinality
             (dirty_blocks (run_calls (fill_calls n @ [Clear_Block 0]) bitmap_engine_init))) \<and>
         card (dirty_blocks (run_calls (fill_calls n @ [Clear_Block 0]) bitmap_engine_init)) = n - 1"
proof -
  let ?e = "run_calls (fill_calls n) bitmap_engine_init"
  have fe: "dirty_blocks ?e = of_nat ` {0..<n}"
    "\<And>b nd. find_block_metadata ?e b = Some nd \<Longrightarrow> state (node_metadata nd) = BLOCK_STATE_DIRTY"
    using fill_calls_effect [OF assms(2)] by simp_all
  have inv: "engine_inv ?e" by (rule engine_inv_reachable)
  then have cd: "chains_distinct ?e" and pl: "block_placed ?e 0"
    by (simp_all add: engine_inv_def)
  have zero: "(0 :: u64) \<in> dirty_blocks ?e"
    unfolding fe(1) using assms(1) by (intro image_eqI [of _ _ 0]) simp_all
  with pl obtain nd where nd: "find_block_metadata ?e 0 = Some nd"
    by (cases "find_block_metadata ?e 0") (auto simp: block_placed_def)
  obtain e' where
    e': "bitmap_engine_clear_block ?e 0 = (RC_SUCCESS, e')"
      "dirty_blocks e' = dirty_blocks ?e - {0}"
      "dirty_count e' = ucast (tdengine_roaring_cardinality (dirty_blocks ?e - {0}))"
    by (rule clear_block_effect [OF nd fe(2) [OF nd] cd]) simp_all
  have run: "run_calls (fill_calls n @ [Clear_Block 0]) bitmap_engine_init = e'"
    by (simp add: run_calls_append e')
  have "card (dirty_blocks ?e) = n"
    unfolding fe(1) by (rule card_of_nat_image) (rule assms(2))
  with zero have "card (dirty_blocks ?e - {0}) = n - 1"
    by simp
  then show ?thesis
    unfolding run by (simp add: e'(2,3))
qed

text \<open>
  C7 as stated fails once a clear leaves \<open>2^32\<close> or more ids in a bitmap: after
  \<open>2^32 + 1\<close> blocks are marked dirty and one of them is cleared, the dirty bitmap holds
  \<open>2^32\<close> ids and the recomputed counter, cut to 32 bits, is 0.
\<close>

theorem stats_counterexample:
  "unat (fst (snd (bitmap_engine_get_stats (run_calls overflow_calls bitmap_engine_init)))) \<noteq>
   card (dirty_blocks (run_calls overflow_calls bitmap_engine_init))"
proof -
  have "(0::nat) < 4294967297" "(4294967297::nat) \<le> 2 ^ 64"
    by simp_all
  from overflow_general [OF this]
  have "dirty_count (run_calls overflow_calls bitmap_engine_init) =
          ucast (word_of_nat 4294967296 :: u32)"
    and c: "card (dirty_blocks (run_calls overflow_calls bitmap_engine_init)) = 4294967296"
    by (simp_all only: overflow_calls_def tdengine_roaring_cardinality_def) simp_all
  then have "dirty_count (run_calls overflow_calls bitmap_engine_init) = 0"
    by simp
  with c show ?thesis
    by (simp only: bitmap_engine_get_stats_def fst_conv snd_conv) simp
qed

subsection \<open>Range queries\<close>

lemmas query_eval =
  bitmap_engine_get_dirty_blocks_by_wal_def bitmap_engine_get_dirty_blocks_by_time_def
  skiplist_range_query_def range_cb_def tdengine_roaring_union_with_def
  tdengine_roaring_intersect_with_def tdengine_roaring_to_array_def
  roaring64_bitmap_to_uint64_array_def

lemma fold_range_cb:
  "fold (\<lambda>(k, bm). range_cb e k bm) hits acc = acc \<union> (dirty_blocks e \<inter> \<Union> (set (map snd hits)))"
  by (induction hits arbitrary: acc)
     (auto simp: range_cb_def tdengine_roaring_union_with_def tdengine_roaring_intersect_with_def
        tdengine_roaring_create_def Let_def)

lemma range_query_result:
  "skiplist_range_query sl k_lo k_hi False (range_cb e) tdengine_roaring_create =
     dirty_blocks e \<inter> indexed_in_range sl k_lo k_hi"
  by (simp add: skiplist_range_query_def fold_range_cb indexed_in_range_def
      tdengine_roaring_create_def)

lemma to_array_count_one:
  "snd (tdengine_roaring_to_array bm 1) = (if bm = {} then 0 else 1)"
  by (simp add: tdengine_roaring_to_array_def Let_def)

lemma to_array_within_max:
  assumes "card bm \<le> unat max_count"
  shows "tdengine_roaring_to_array bm max_count = (sorted_list_of_set bm, of_nat (card bm))"
proof (cases "card bm < unat max_count")
  case True
  moreover have "unat max_count < 2 ^ 32"
    using unsigned_less [of max_count, where 'a = nat] by simp
  ultimately have "card bm < 2 ^ 32"
    by simp
  then have u: "unat (word_of_nat (card bm) :: u32) = card bm"
    by (simp add: unat_of_nat)
  have "(word_of_nat (card bm) :: u32) = 0 \<longleftrightarrow> bm = {}"
    using u by (metis card_0_eq finite unat_eq_zero)
  with True show ?thesis
    by (auto simp: tdengine_roaring_to_array_def Let_def roaring64_bitmap_to_uint64_array_def
        word_neq_0_conv [symmetric])
next
  case False
  with assms have eq: "card bm = unat max_count" by simp
  then have "(word_of_nat (card bm) :: u32) = max_count" by simp
  moreover have "max_count = 0 \<longleftrightarrow> bm = {}"
    using eq by (metis card_0_eq finite unat_eq_zero)
  ultimately show ?thesis
    using False
    by (auto simp: tdengine_roaring_to_array_def Let_def roaring64_bitmap_to_uint64_array_def
        word_neq_0_conv [symmetric])
qed

lemma to_array_count:
  "snd (tdengine_roaring_to_array bm max_count) =
     (if card bm < unat max_count then of_nat (card bm) else max_count)"
  by (simp add: tdengine_roaring_to_array_def Let_def)

lemma range_engine_fields:
  "dirty_blocks range_engine = {1001, 1002, 1003, 1004}"
  "wal_index range_engine = [(1000, {1001}), (2000, {1002}), (3000, {1003}), (4000, {1004})]"
  "time_index range_engine = [(10, {1001}), (20, {1002}), (30, {1003}), (40, {1004})]"
  by (simp_all add: range_engine_def engine_eval insert_commute)

lemma range_engine_in_range:
  "dirty_blocks range_engine \<inter> indexed_in_range (wal_index range_engine) 1500 3500 = {1002, 1003}"
  "dirty_blocks range_engine \<inter> indexed_in_range (wal_index range_engine) 1500 2500 = {1002}"
  "dirty_blocks range_engine \<inter> indexed_in_range (wal_index range_engine) 5000 6000 = {}"
  by (auto simp: range_engine_fields indexed_in_range_def)

text \<open>The range scenario of the specification, with room for ten ids.\<close>

lemma range_scenario:
  "bitmap_engine_get_dirty_blocks_by_wal range_engine 1500 3500 10 = ([1002, 1003], 2)"
  by (simp add: query_eval range_engine_fields Let_def tdengine_roaring_create_def)

text \<open>
  The keys of the WAL index are compared as \<^verbatim>\<open>int64_t\<close>: an upper bound of \<open>2^64 - 1\<close> is
  the key \<open>-1\<close>, and the range from 0 to it is empty.
\<close>

lemma wal_range_is_signed:
  "bitmap_engine_get_dirty_blocks_by_wal range_engine 0 18446744073709551615 10 = ([], 0)"
  by (simp add: query_eval range_engine_fields Let_def tdengine_roaring_create_def word_sle_eq)

text \<open>
  When the result fits (\<open>card \<le> max_count\<close>) the query stores exactly the ids of the range
  that are in the dirty bitmap, in ascending order, and returns their number.
\<close>

lemma dirty_blocks_by_wal_fitting:
  assumes "max_count \<noteq> 0"
    and "card (dirty_blocks e \<inter> indexed_in_range (wal_index e) lo hi) \<le> unat max_count"
  shows "bitmap_engine_get_dirty_blocks_by_wal e lo hi max_count =
           (sorted_list_of_set (dirty_blocks e \<inter> indexed_in_range (wal_index e) lo hi),
            of_nat (card (dirty_blocks e \<inter> indexed_in_range (wal_index e) lo hi)))"
  using assms
  by (simp add: bitmap_engine_get_dirty_blocks_by_wal_def range_query_result to_array_within_max)

lemma dirty_blocks_by_time_fitting:
  assumes "max_count \<noteq> 0"
    and "card (dirty_blocks e \<inter> indexed_in_range (time_index e) lo hi) \<le> unat max_count"
  shows "bitmap_engine_get_dirty_blocks_by_time e lo hi max_count =
           (sorted_list_of_set (dirty_blocks e \<inter> indexed_in_range (time_index e) lo hi),
            of_nat (card (dirty_blocks e \<inter> indexed_in_range (time_index e) lo hi)))"
  using assms
  by (simp add: bitmap_engine_get_dirty_blocks_by_time_def range_query_result to_array_within_max)

subsection \<open>C6: the ids a range query stores\<close>

text \<open>
  C6 at the range scenario with \<open>max_count = 1\<close>: both queries return the count 1 and store
  two ids, one more than the array of the caller is said to hold.
\<close>

theorem to_array_stores_past_max_count:
  "bitmap_engine_get_dirty_blocks_by_wal range_engine 1500 3500 1 = ([1002, 1003], 1) \<and>
   bitmap_engine_get_dirty_blocks_by_time range_engine 15 35 1 = ([1002, 1003], 1)"
  by (simp add: query_eval range_engine_fields Let_def tdengine_roaring_create_def)

subsection \<open>The buffers of the coordinator\<close>

text \<open>
  A query with \<open>max_count > 0\<close> stores every dirty id of its range, in ascending order,
  whatever \<open>max_count\<close> is; the count it returns is cut to \<open>max_count\<close>.
\<close>

lemma to_array_stored:
  assumes "max_count \<noteq> 0"
  shows "fst (tdengine_roaring_to_array bm max_count) = sorted_list_of_set bm"
proof (cases "bm = {}")
  case True
  then show ?thesis
    by (simp add: tdengine_roaring_to_array_def Let_def roaring64_bitmap_to_uint64_array_def)
next
  case False
  have small: "unat max_count < 2 ^ 32"
    using unsigned_less [of max_count, where 'a = nat] by simp
  have "(if card bm < unat max_count then word_of_nat (card bm) else max_count) \<noteq> (0 :: u32)"
  proof (cases "card bm < unat max_count")
    case True
    with small have "card bm < 2 ^ 32"
      by simp
    then have "unat (word_of_nat (card bm) :: u32) = card bm"
      by (simp add: unat_of_nat)
    moreover have "card bm \<noteq> 0"
      using False by simp
    ultimately have "(word_of_nat (card bm) :: u32) \<noteq> 0"
      by (metis unat_eq_zero)
    with True show ?thesis
      by simp
  next
    case False
    with assms show ?thesis
      by simp
  qed
  then show ?thesis
    by (simp add: tdengine_roaring_to_array_def Let_def roaring64_bitmap_to_uint64_array_def
        word_neq_0_conv [symmetric])
qed

lemma dirty_blocks_by_wal_stored:
  "max_count \<noteq> 0 \<Longrightarrow>
     fst (bitmap_engine_get_dirty_blocks_by_wal e lo hi max_count) =
       sorted_list_of_set (dirty_in_wal_range e lo hi)"
  by (simp add: bitmap_engine_get_dirty_blocks_by_wal_def range_query_result to_array_stored)

lemma dirty_blocks_by_wal_count:
  "snd (bitmap_engine_get_dirty_blocks_by_wal e lo hi max_count) =
     (if card (dirty_in_wal_range e lo hi) < unat max_count
      then of_nat (card (dirty_in_wal_range e lo hi)) else max_count)"
  by (simp add: bitmap_engine_get_dirty_blocks_by_wal_def range_query_result to_array_count)

lemma dirty_blocks_by_wal_eval:
  "max_count \<noteq> 0 \<Longrightarrow>
     bitmap_engine_get_dirty_blocks_by_wal e lo hi max_count =
       (sorted_list_of_set (dirty_in_wal_range e lo hi),
        if card (dirty_in_wal_range e lo hi) < unat max_count
        then of_nat (card (dirty_in_wal_range e lo hi)) else max_count)"
  using dirty_blocks_by_wal_stored [of max_count e lo hi]
    dirty_blocks_by_wal_count [of e lo hi max_count]
  by (simp add: prod_eq_iff)

lemma card_at_most_one:
  "card (bm :: bitmap) \<le> 1 \<longleftrightarrow> bm = {} \<or> card bm = 1"
  by (cases "card bm") auto

subsection \<open>C8: size estimation\<close>

lemma estimate_size_eval:
  "backup_coordinator_estimate_size co sw ew =
     (if card (dirty_in_wal_range (bitmap_engine co) sw ew) \<le> 1
      then Inr (if dirty_in_wal_range (bitmap_engine co) sw ew = {}
                then (0, 0, 0) else (0, 1000, 1048576000))
      else Inl BLOCK_IDS_OVERRUN)"
  by (auto simp: backup_coordinator_estimate_size_def dirty_blocks_by_wal_eval Let_def
      card_at_most_one)

text \<open>
  C8, as amended. For a WAL range that holds at most one dirty block,
  \<^verbatim>\<open>backup_coordinator_estimate_size\<close> returns 0 blocks and 0 bytes when the range holds
  none, and 1000 blocks and \<open>1000 * 1024 * 1024\<close> bytes when it holds one, whatever the
  configuration.
\<close>

theorem estimate_size_constant:
  assumes "card (dirty_in_wal_range (bitmap_engine co) sw ew) \<le> 1"
  shows "backup_coordinator_estimate_size co sw ew =
           Inr (if dirty_in_wal_range (bitmap_engine co) sw ew = {}
                then (0, 0, 0) else (0, 1000, 1048576000))"
  using assms by (simp add: estimate_size_eval)

theorem estimate_size_constant_witness:
  "card (dirty_in_wal_range (bitmap_engine range_coordinator) 1500 2500) \<le> 1 \<and>
   backup_coordinator_estimate_size range_coordinator 1500 2500 = Inr (0, 1000, 1048576000) \<and>
   card (dirty_in_wal_range (bitmap_engine range_coordinator) 5000 6000) \<le> 1 \<and>
   backup_coordinator_estimate_size range_coordinator 5000 6000 = Inr (0, 0, 0)"
  using estimate_size_constant [of range_coordinator 1500 2500]
    estimate_size_constant [of range_coordinator 5000 6000]
  by (simp add: range_coordinator_def backup_coordinator_init_def range_engine_in_range)

text \<open>
  C8 as stated fails: the range 1500 to 2500 of the range scenario holds one dirty block
  and the estimate is 1000 blocks, with the same byte size under another configuration.
\<close>

theorem estimate_size_counterexample:
  "card (dirty_in_wal_range (bitmap_engine range_coordinator) 1500 2500) = 1 \<and>
   backup_coordinator_estimate_size range_coordinator 1500 2500 = Inr (0, 1000, 1048576000) \<and>
   backup_coordinator_estimate_size
     (range_coordinator\<lparr>config := default_config\<lparr>max_blocks_per_batch := 1\<rparr>\<rparr>) 1500 2500
     = Inr (0, 1000, 1048576000)"
  by (simp add: estimate_size_eval range_coordinator_def backup_coordinator_init_def
      range_engine_in_range)

text \<open>
  A range with two or more dirty blocks is outside the amended claim: the probe stores
  all their ids into its one cell. The range 1500 to 3500 of the range scenario is one.
\<close>

lemma estimate_size_overrun:
  "1 < card (dirty_in_wal_range (bitmap_engine co) sw ew) \<Longrightarrow>
     backup_coordinator_estimate_size co sw ew = Inl BLOCK_IDS_OVERRUN"
  by (simp add: estimate_size_eval)

lemma estimate_size_overrun_scenario:
  "backup_coordinator_estimate_size range_coordinator 1500 3500 = Inl BLOCK_IDS_OVERRUN"
  by (simp add: estimate_size_eval range_coordinator_def backup_coordinator_init_def
      range_engine_in_range)

subsection \<open>C5: the query behind a batch\<close>

lemma get_next_batch_eval:
  assumes "has_more c" and "m \<noteq> 0"
  shows "backup_coordinator_get_next_batch True co c m =
     (if card (dirty_in_wal_range (bitmap_engine co) (start_wal c) (end_wal c)) \<le> unat m
      then Inr (of_nat (card (dirty_in_wal_range (bitmap_engine co) (start_wal c) (end_wal c))),
                map (fill_block (bitmap_engine co))
                  (sorted_list_of_set
                     (dirty_in_wal_range (bitmap_engine co) (start_wal c) (end_wal c))),
                c\<lparr>current_block := current_block c +
                     ucast (of_nat (card (dirty_in_wal_range (bitmap_engine co)
                                            (start_wal c) (end_wal c))) :: u32),
                  has_more :=
                    \<not> (ucast (block_count c) \<le> current_block c +
                          ucast (of_nat (card (dirty_in_wal_range (bitmap_engine co)
                                                 (start_wal c) (end_wal c))) :: u32) \<or>
                       (of_nat (card (dirty_in_wal_range (bitmap_engine co)
                                        (start_wal c) (end_wal c))) :: u32) < m)\<rparr>)
      else Inl BLOCK_IDS_OVERRUN)"
proof -
  let ?S = "dirty_in_wal_range (bitmap_engine co) (start_wal c) (end_wal c)"
  let ?n = "of_nat (card ?S) :: u32"
  have keep: "c1\<lparr>has_more := True\<rparr> = c1" if "has_more c1" for c1 :: SIncrementalCursor
    using that by (cases c1) simp
  show ?thesis
  proof (cases "card ?S \<le> unat m")
    case True
    have small: "unat m < 2 ^ 32"
      using unsigned_less [of m, where 'a = nat] by simp
    with True have "card ?S < 2 ^ 32"
      by simp
    then have u: "unat ?n = card ?S"
      by (simp add: unat_of_nat)
    have q: "bitmap_engine_get_dirty_blocks_by_wal (bitmap_engine co) (start_wal c) (end_wal c) m =
               (sorted_list_of_set ?S, ?n)"
      using assms(2) True by (rule dirty_blocks_by_wal_fitting)
    have hm: "has_more (c\<lparr>current_block := current_block c + ucast ?n\<rparr>)"
      using assms(1) by simp
    show ?thesis
      using True assms u keep [OF hm]
      by (simp add: backup_coordinator_get_next_batch_def q Let_def)
  next
    case False
    then show ?thesis
      using assms
      by (simp add: backup_coordinator_get_next_batch_def dirty_blocks_by_wal_eval Let_def)
  qed
qed







text \<open>
  A range that holds more dirty blocks than \<open>max_count\<close> is outside the amended claim: the
  query stores all their ids into the \<open>max_count\<close> cells of \<^verbatim>\<open>block_ids\<close>.
\<close>

lemma get_next_batch_overrun:
  assumes "has_more c" and "m \<noteq> 0"
    and "unat m < card (dirty_in_wal_range (bitmap_engine co) (start_wal c) (end_wal c))"
  shows "backup_coordinator_get_next_batch True co c m = Inl BLOCK_IDS_OVERRUN"
  using assms by (simp add: get_next_batch_eval)

subsection \<open>C10: a cursor does not advance\<close>

lemma create_cursor_eval:
  "backup_coordinator_create_cursor True co ty st et sw ew =
     (if card (dirty_in_wal_range (bitmap_engine co) sw ew) \<le> 1
      then Inr (Some \<lparr>cursor_type = ty, start_time = st, end_time = et, start_wal = sw,
                      end_wal = ew, current_block = 0,
                      block_count =
                        (if dirty_in_wal_range (bitmap_engine co) sw ew = {} then 0 else 1000),
                      has_more = True\<rparr>)
      else Inl BLOCK_IDS_OVERRUN)"
  by (auto simp: backup_coordinator_create_cursor_def dirty_blocks_by_wal_eval Let_def
      card_at_most_one)















text \<open>
  A range that holds two or more dirty blocks when the cursor is created is outside the
  claim: the probe of \<^verbatim>\<open>backup_coordinator_create_cursor\<close> stores their ids into its one
  cell.
\<close>

lemma create_cursor_overrun:
  "1 < card (dirty_in_wal_range (bitmap_engine co) sw ew) \<Longrightarrow>
     backup_coordinator_create_cursor True co ty st et sw ew = Inl BLOCK_IDS_OVERRUN"
  by (simp add: create_cursor_eval)

subsection \<open>C4: retry\<close>

lemmas retry_eval =
  backup_execute_with_retry_def backup_retry_context_init_def backup_wait_for_retry_def
  is_retryable_error_def BACKUP_SUCCESS_def BACKUP_ERROR_NETWORK_def BACKUP_ERROR_TIMEOUT_def
  BACKUP_ERROR_CONNECTION_LOST_def BACKUP_ERROR_FILE_IO_def BACKUP_ERROR_RETRY_EXHAUSTED_def
  BACKUP_ERROR_DATA_CORRUPTION_def BACKUP_ERROR_INVALID_PARAM_def

text \<open>
  C4 at the retry scenario: four calls are made (the first and three retries), and the
  result is the Network code of the last call, not RetryExhausted.
\<close>

theorem retry_exhaustion_returns_last_error:
  "backup_execute_with_retry always_network still_clock (backup_retry_context_init 3 0) =
     (BACKUP_ERROR_NETWORK,
      \<lparr>current_retry = 3, max_retry = 3, retry_interval = 0, last_retry_time = 0,
       retry_state = RETRY_STATE_FAILED, last_error = BACKUP_ERROR_NETWORK\<rparr>, 4) \<and>
   BACKUP_ERROR_NETWORK \<noteq> BACKUP_ERROR_RETRY_EXHAUSTED"
  by (simp add: retry_eval retry_loop.simps always_network_def still_clock_def Let_def
      word_le_nat_alt)

text \<open>
  The rest of the retry policy holds for every operation: the result is success or a code
  the operation returned, so RetryExhausted is never produced by the loop itself; an error
  that is not retryable is returned after the first call; a retryable error is followed by
  another call while retries are left.
\<close>

lemma retry_loop_result:
  "current_retry ctx \<le> max_retry ctx \<Longrightarrow>
     fst (retry_loop operation clock n ctx) = BACKUP_SUCCESS \<or>
     (\<exists>k. fst (retry_loop operation clock n ctx) = operation k)"
proof (induction operation clock n ctx rule: retry_loop.induct)
  case (1 operation clock n ctx)
  show ?case
  proof (cases "operation n = BACKUP_SUCCESS")
    case True
    with "1.prems" show ?thesis by (subst retry_loop.simps) simp
  next
    case False
    show ?thesis
    proof (cases "\<not> is_retryable_error (operation n) \<or> max_retry ctx \<le> current_retry ctx")
      case True
      with False "1.prems" have "fst (retry_loop operation clock n ctx) = operation n"
        by (subst retry_loop.simps) (auto simp: Let_def)
      then show ?thesis by blast
    next
      case more: False
      then have lt: "current_retry ctx < max_retry ctx" by (simp add: not_le)
      then have le: "current_retry ctx + 1 \<le> max_retry ctx"
        by (simp add: inc_le)
      let ?c = "backup_wait_for_retry (clock n)
                  (ctx\<lparr>last_error := operation n, current_retry := current_retry ctx + 1\<rparr>)"
      have "fst (retry_loop operation clock (Suc n) ?c) = BACKUP_SUCCESS \<or>
            (\<exists>k. fst (retry_loop operation clock (Suc n) ?c) = operation k)"
        using "1.IH" [OF "1.prems" refl False refl] more le
        by (simp add: backup_wait_for_retry_def)
      moreover have "retry_loop operation clock n ctx = retry_loop operation clock (Suc n) ?c"
        using "1.prems" False more by (subst retry_loop.simps) (simp add: Let_def)
      ultimately show ?thesis by simp
    qed
  qed
qed

lemma retry_never_exhausted:
  assumes "\<And>k. operation k \<noteq> BACKUP_ERROR_RETRY_EXHAUSTED"
  shows "fst (backup_execute_with_retry operation clock ctx) \<noteq> BACKUP_ERROR_RETRY_EXHAUSTED"
  using retry_loop_result [of "ctx\<lparr>retry_state := RETRY_STATE_RETRYING, current_retry := 0\<rparr>" operation clock 0]
    assms
  by (auto simp: backup_execute_with_retry_def BACKUP_SUCCESS_def BACKUP_ERROR_RETRY_EXHAUSTED_def)

lemma non_retryable_returned_at_once:
  assumes "operation 0 \<noteq> BACKUP_SUCCESS" "\<not> is_retryable_error (operation 0)"
  shows "fst (backup_execute_with_retry operation clock ctx) = operation 0 \<and>
         snd (snd (backup_execute_with_retry operation clock ctx)) = 1"
  using assms by (simp add: backup_execute_with_retry_def retry_loop.simps Let_def)

lemma retry_loop_calls:
  "current_retry ctx \<le> max_retry ctx \<Longrightarrow> n < snd (snd (retry_loop operation clock n ctx))"
proof (induction operation clock n ctx rule: retry_loop.induct)
  case (1 operation clock n ctx)
  show ?case
  proof (cases "operation n \<noteq> BACKUP_SUCCESS \<and>
      \<not> (\<not> is_retryable_error (operation n) \<or> max_retry ctx \<le> current_retry ctx)")
    case True
    then have "current_retry ctx < max_retry ctx" by (simp add: not_le)
    then have le: "current_retry ctx + 1 \<le> max_retry ctx"
      by (simp add: inc_le)
    let ?c = "backup_wait_for_retry (clock n)
                (ctx\<lparr>last_error := operation n, current_retry := current_retry ctx + 1\<rparr>)"
    have "Suc n < snd (snd (retry_loop operation clock (Suc n) ?c))"
      using "1.IH" [OF "1.prems" refl _ refl] True le
      by (simp add: backup_wait_for_retry_def)
    moreover have "retry_loop operation clock n ctx = retry_loop operation clock (Suc n) ?c"
      using "1.prems" True by (subst retry_loop.simps) (simp add: Let_def)
    ultimately show ?thesis by simp
  next
    case False
    with "1.prems" show ?thesis
      by (subst retry_loop.simps) (auto simp: Let_def)
  qed
qed

lemma retryable_is_retried:
  assumes "is_retryable_error (operation 0)" "operation 0 \<noteq> BACKUP_SUCCESS" "max_retry ctx \<noteq> 0"
  shows "1 < snd (snd (backup_execute_with_retry operation clock ctx))"
proof -
  let ?c0 = "ctx\<lparr>retry_state := RETRY_STATE_RETRYING, current_retry := 0\<rparr>"
  let ?c1 = "backup_wait_for_retry (clock 0) (?c0\<lparr>last_error := operation 0, current_retry := 1\<rparr>)"
  have "retry_loop operation clock 0 ?c0 = retry_loop operation clock 1 ?c1"
    using assms by (subst retry_loop.simps) (simp add: Let_def word_le_0_iff)
  moreover have "current_retry ?c1 \<le> max_retry ?c1"
    using assms(3) by (simp add: backup_wait_for_retry_def word_le_nat_alt unat_gt_0 Suc_leI)
  ultimately show ?thesis
    using retry_loop_calls [of ?c1 1 operation clock]
    by (simp add: backup_execute_with_retry_def)
qed

subsection \<open>C9: stopping the interceptor\<close>

lemmas interceptor_eval =
  event_interceptor_init_def event_interceptor_start_def event_interceptor_stop_def
  plugin_interceptor_config_def started_interceptor_def all_created_def
  on_block_event_def event_interceptor_on_block_create_def ring_buffer_enqueue_def
  ring_buffer_dequeue_blocking_def callback_thread_iteration_def create_event_def

lemma find_no_failure: "List.find (\<lambda>k. False) xs = None"
  by (simp add: find_None_iff)

lemma started_interceptor_is_started:
  "event_interceptor_start all_created (event_interceptor_init plugin_interceptor_config) =
     Some (0, started_interceptor)"
  by (simp add: interceptor_eval Let_def find_no_failure)

text \<open>
  C9 at the interceptor of the plugin, initialised and started: the stop call returns 0
  and leaves the interceptor as it was, the stop flag still false and both workers live.
\<close>

theorem stop_does_not_signal_shutdown:
  "event_interceptor_start all_created (event_interceptor_init plugin_interceptor_config) =
     Some (0, started_interceptor) \<and>
   event_interceptor_stop started_interceptor = (0, started_interceptor) \<and>
   stop_threads (snd (event_interceptor_stop started_interceptor)) = False \<and>
   live_workers (snd (event_interceptor_stop started_interceptor)) = 2"
  by (simp add: started_interceptor_is_started)
     (simp add: event_interceptor_stop_def started_interceptor_def)

text \<open>
  While the flag is false a worker does not leave its loop, a stop call changes nothing,
  and a start call leaves the flag false: no sequence of calls from the initial state
  sets it.
\<close>

lemma iteration_keeps_stop_flag:
  "stop_threads (fst (callback_thread_iteration i e)) = stop_threads i"
  by (simp add: callback_thread_iteration_def Let_def split: option.splits prod.splits)

lemma worker_never_returns:
  "\<not> stop_threads i \<Longrightarrow> callback_thread_func fuel i e = None"
proof (induction fuel arbitrary: i e)
  case 0
  show ?case by simp
next
  case (Suc fuel)
  obtain i' e' where it: "callback_thread_iteration i e = (i', e')"
    by (cases "callback_thread_iteration i e")
  with iteration_keeps_stop_flag [of i e] Suc.prems have "\<not> stop_threads i'"
    by simp
  with Suc.IH [of i' e'] Suc.prems it show ?case by simp
qed

lemma stop_without_flag: "\<not> stop_threads i \<Longrightarrow> event_interceptor_stop i = (0, i)"
  by (simp add: event_interceptor_stop_def)

lemma start_keeps_flag_clear:
  "\<not> stop_threads i \<Longrightarrow> event_interceptor_start create_ok i = Some (rc, i') \<Longrightarrow>
     \<not> stop_threads i'"
  by (auto simp: event_interceptor_start_def Let_def split: option.splits if_splits)

subsection \<open>C3: what a worker does with an event\<close>

lemma iteration_effect:
  "event_buffer i = ev # rest \<Longrightarrow>
     callback_thread_iteration i e =
       (i\<lparr>event_buffer := rest, events_processed := events_processed i + 1\<rparr>,
        case callback (interceptor_config i) of None \<Rightarrow> e | Some cb \<Rightarrow> cb ev e)"
  by (simp add: callback_thread_iteration_def ring_buffer_dequeue_blocking_def Let_def
      split: option.splits)

lemma iteration_without_callback:
  "callback (interceptor_config i) = None \<Longrightarrow> snd (callback_thread_iteration i e) = e"
  by (simp add: callback_thread_iteration_def Let_def split: option.splits prod.splits)

lemma iteration_fields:
  "interceptor_config (fst (callback_thread_iteration i e)) = interceptor_config i"
  "event_buffer (fst (callback_thread_iteration i e)) = tl (event_buffer i)"
  "events_processed (fst (callback_thread_iteration i e)) =
     events_processed i + (if event_buffer i = [] then 0 else 1)"
  by (simp_all add: callback_thread_iteration_def ring_buffer_dequeue_blocking_def Let_def
      split: list.splits)

lemma worker_passes_without_callback:
  "callback (interceptor_config i) = None \<Longrightarrow>
     snd (worker_passes k i e) = e \<and>
     events_processed (fst (worker_passes k i e)) =
       events_processed i + of_nat (min k (length (event_buffer i)))"
proof (induction k arbitrary: i)
  case 0
  show ?case by simp
next
  case (Suc k)
  obtain i' e' where it: "callback_thread_iteration i e = (i', e')"
    by (cases "callback_thread_iteration i e")
  from it iteration_without_callback [OF Suc.prems, of e] have e': "e' = e"
    by simp
  from it iteration_fields [of i e] have f: "interceptor_config i' = interceptor_config i"
    "event_buffer i' = tl (event_buffer i)"
    "events_processed i' = events_processed i + (if event_buffer i = [] then 0 else 1)"
    by simp_all
  from Suc.IH [of i'] Suc.prems f(1) have
    "snd (worker_passes k i' e) = e"
    "events_processed (fst (worker_passes k i' e)) =
       events_processed i' + of_nat (min k (length (event_buffer i')))"
    by simp_all
  then show ?case
    by (cases "event_buffer i") (simp_all add: it e' f)
qed

text \<open>
  C3, as amended. For every event a worker dequeues, the worker calls the user callback if
  one is configured and counts the event as processed; it applies nothing to the bitmap
  engine itself, so without a callback the engine is left as it was, whatever the kind
  of the event: after any number of passes the engine is unchanged and the events taken
  from the buffer are all counted.
\<close>

theorem worker_calls_back_and_counts:
  "(event_buffer i = ev # rest \<longrightarrow>
      callback_thread_iteration i e =
        (i\<lparr>event_buffer := rest, events_processed := events_processed i + 1\<rparr>,
         case callback (interceptor_config i) of None \<Rightarrow> e | Some cb \<Rightarrow> cb ev e)) \<and>
   (callback (interceptor_config i) = None \<longrightarrow>
      snd (worker_passes k i e) = e \<and>
      events_processed (fst (worker_passes k i e)) =
        events_processed i + of_nat (min k (length (event_buffer i))))"
  using iteration_effect worker_passes_without_callback by blast

lemma submitted_create:
  "event_interceptor_on_block_create True started_interceptor 1 100 5 =
     (0, started_interceptor\<lparr>event_buffer := [create_event]\<rparr>)"
  by (simp add: interceptor_eval Let_def)

theorem worker_calls_back_and_counts_witness:
  "event_buffer (started_interceptor\<lparr>event_buffer := [create_event]\<rparr>) = [create_event] \<and>
   callback (interceptor_config (started_interceptor\<lparr>event_buffer := [create_event]\<rparr>)) = None \<and>
   callback_thread_iteration (started_interceptor\<lparr>event_buffer := [create_event]\<rparr>)
       bitmap_engine_init =
     (started_interceptor\<lparr>event_buffer := [], events_processed := 1\<rparr>, bitmap_engine_init) \<and>
   snd (worker_passes 3 (started_interceptor\<lparr>event_buffer := [create_event]\<rparr>)
          bitmap_engine_init) = bitmap_engine_init \<and>
   events_processed
     (fst (worker_passes 3 (started_interceptor\<lparr>event_buffer := [create_event]\<rparr>)
             bitmap_engine_init)) = 1"
  using worker_calls_back_and_counts
    [where i = "started_interceptor\<lparr>event_buffer := [create_event]\<rparr>" and ev = create_event
       and rest = "[]" and e = bitmap_engine_init and k = 3]
  by (simp add: started_interceptor_def plugin_interceptor_config_def)

text \<open>
  C3 as stated fails: a CREATE event for block 1 is accepted and processed by a worker of
  the interceptor of the plugin, and block 1 is still CLEAN and in no bitmap, where
  \<^verbatim>\<open>bitmap_engine_mark_new\<close> would have made it NEW.
\<close>

theorem worker_counterexample:
  "event_interceptor_on_block_create True started_interceptor 1 100 5 =
     (0, started_interceptor\<lparr>event_buffer := [create_event]\<rparr>) \<and>
   current_state_of
     (snd (callback_thread_iteration (started_interceptor\<lparr>event_buffer := [create_event]\<rparr>)
             bitmap_engine_init)) 1 = BLOCK_STATE_CLEAN \<and>
   new_blocks
     (snd (callback_thread_iteration (started_interceptor\<lparr>event_buffer := [create_event]\<rparr>)
             bitmap_engine_init)) = {} \<and>
   events_processed
     (fst (callback_thread_iteration (started_interceptor\<lparr>event_buffer := [create_event]\<rparr>)
             bitmap_engine_init)) = 1 \<and>
   current_state_of (snd (bitmap_engine_mark_new True bitmap_engine_init 1 100 5)) 1 =
     BLOCK_STATE_NEW"
  by (simp add: submitted_create) (simp add: interceptor_eval engine_eval)

end
